theory Spec2Isabelle
  imports Complex_Main "HOL-Library.Sublist"
begin

unbundle bit_operations_syntax

section \<open>Values of the script\<close>

text \<open>
  A Python float read by \<open>json.load\<close>: a finite value, or one of the three constants
  \<open>Infinity\<close>, \<open>-Infinity\<close>, \<open>NaN\<close> that the decoder accepts by default.
\<close>

datatype pyfloat = Finite rat | PosInf | NegInf | NaN

text \<open>
  A value as \<open>json.load\<close> builds it. \<open>JNull\<close> is Python's \<open>None\<close>. An object is kept
  as its pairs in document order: before the pairs hook has run the keys may repeat,
  after it they are distinct and in insertion order, as in a \<open>dict\<close>. Strings are
  lists of characters.
\<close>

datatype json =
    JNull
  | JBool bool
  | JInt int
  | JFloat pyfloat
  | JStr string
  | JArr "json list"
  | JObj "(string \<times> json) list"

text \<open>
  Exceptions that leave a function of the script. \<open>Unmodelled\<close> is not a Python
  exception: it marks a run that leaves the part of \<open>str.format\<close> that \<open>py_format\<close>
  below covers.
\<close>

datatype exn =
    TypeError
  | AttributeError
  | IndexError
  | ValueError
  | OSError
  | CalledProcessError
  | KeyError string
  | Unmodelled

fun is_KeyError :: "exn \<Rightarrow> bool" where
  "is_KeyError (KeyError k) = True"
| "is_KeyError e = False"

text \<open>The globals \<open>errors\<close>, \<open>warnings\<close> and \<open>namespace\<close>.\<close>

record state =
  errors :: "string list"
  warnings :: "string list"
  namespace :: string

text \<open>
  A call either raises, or returns a value; both leave the globals as they were at that
  moment, so that a handler sees what was recorded before the exception.
\<close>

type_synonym 'a result = "(exn \<times> state) + ('a \<times> state)"

definition and_then :: "'a result \<Rightarrow> ('a \<Rightarrow> state \<Rightarrow> 'b result) \<Rightarrow> 'b result" where
  "and_then m f = (case m of Inl e \<Rightarrow> Inl e | Inr (x, st) \<Rightarrow> f x st)"

definition attempt :: "exn + 'a \<Rightarrow> state \<Rightarrow> 'a result" where
  "attempt r st = (case r of Inl e \<Rightarrow> Inl (e, st) | Inr x \<Rightarrow> Inr (x, st))"

definition error :: "string \<Rightarrow> state \<Rightarrow> state" where
  "error description st =
     st\<lparr>errors := errors st @ [''ERROR: '' @ namespace st @ '' - '' @ description]\<rparr>"

definition warning :: "string \<Rightarrow> state \<Rightarrow> state" where
  "warning description st =
     st\<lparr>warnings := warnings st @ [''WARNING: '' @ namespace st @ '' - '' @ description]\<rparr>"

section \<open>Python operators on parsed values\<close>

text \<open>\<open>key in data\<close> for a string \<open>key\<close>.\<close>

fun py_in :: "string \<Rightarrow> json \<Rightarrow> exn + bool" where
  "py_in k (JObj kvs) = Inr (k \<in> set (map fst kvs))"
| "py_in k (JArr xs) = Inr (JStr k \<in> set xs)"
| "py_in k (JStr s) = Inr (sublist k s)"
| "py_in k v = Inl TypeError"

text \<open>\<open>data[key]\<close> for a string \<open>key\<close>.\<close>

fun py_getitem :: "json \<Rightarrow> string \<Rightarrow> exn + json" where
  "py_getitem (JObj kvs) k = (case map_of kvs k of None \<Rightarrow> Inl (KeyError k) | Some v \<Rightarrow> Inr v)"
| "py_getitem v k = Inl TypeError"

text \<open>\<open>data.get(key, [])\<close>.\<close>

fun py_get :: "json \<Rightarrow> string \<Rightarrow> exn + json" where
  "py_get (JObj kvs) k = (case map_of kvs k of None \<Rightarrow> Inr (JArr []) | Some v \<Rightarrow> Inr v)"
| "py_get v k = Inl AttributeError"

text \<open>The values a \<open>for\<close> loop over \<open>v\<close> visits.\<close>

fun py_iter :: "json \<Rightarrow> exn + json list" where
  "py_iter (JObj kvs) = Inr (map (\<lambda>kv. JStr (fst kv)) kvs)"
| "py_iter (JArr xs) = Inr xs"
| "py_iter (JStr s) = Inr (map (\<lambda>c. JStr [c]) s)"
| "py_iter v = Inl TypeError"

text \<open>\<open>data.items()\<close>.\<close>

fun py_items :: "json \<Rightarrow> exn + (string \<times> json) list" where
  "py_items (JObj kvs) = Inr kvs"
| "py_items v = Inl AttributeError"

text \<open>\<open>len(data)\<close>.\<close>

fun py_len :: "json \<Rightarrow> exn + nat" where
  "py_len (JObj kvs) = Inr (length kvs)"
| "py_len (JArr xs) = Inr (length xs)"
| "py_len (JStr s) = Inr (length s)"
| "py_len v = Inl TypeError"

text \<open>\<open>isinstance(v, int)\<close>, with the value: \<open>bool\<close> is a subclass of \<open>int\<close>.\<close>

fun py_int :: "json \<Rightarrow> int option" where
  "py_int (JInt n) = Some n"
| "py_int (JBool b) = Some (if b then 1 else 0)"
| "py_int v = None"

fun isinstance_str :: "json \<Rightarrow> bool" where
  "isinstance_str (JStr s) = True"
| "isinstance_str v = False"

fun isinstance_dict :: "json \<Rightarrow> bool" where
  "isinstance_dict (JObj kvs) = True"
| "isinstance_dict v = False"

fun isinstance_list :: "json \<Rightarrow> bool" where
  "isinstance_list (JArr xs) = True"
| "isinstance_list v = False"

fun isinstance_bool :: "json \<Rightarrow> bool" where
  "isinstance_bool (JBool b) = True"
| "isinstance_bool v = False"

text \<open>Whether \<open>v\<close> can be put into a set: lists and dicts are unhashable.\<close>

fun hashable :: "json \<Rightarrow> bool" where
  "hashable (JArr xs) = False"
| "hashable (JObj kvs) = False"
| "hashable v = True"

text \<open>
  \<open>v == n\<close> for an int \<open>n\<close>: Python compares numbers by value, so \<open>1\<close>, \<open>1.0\<close> and
  \<open>True\<close> are one element of a set.
\<close>

fun py_eq_int :: "json \<Rightarrow> int \<Rightarrow> bool" where
  "py_eq_int (JInt k) n = (k = n)"
| "py_eq_int (JBool b) n = ((if b then 1 else 0) = n)"
| "py_eq_int (JFloat (Finite q)) n = (q = of_int n)"
| "py_eq_int v n = False"

text \<open>\<open>f < 0.5\<close> on a float.\<close>

fun float_less_half :: "pyfloat \<Rightarrow> bool" where
  "float_less_half (Finite q) = (q < 1 / 2)"
| "float_less_half NegInf = True"
| "float_less_half PosInf = False"
| "float_less_half NaN = False"

text \<open>\<open>str(n)\<close> for an int.\<close>

fun str_nat :: "nat \<Rightarrow> string" where
  "str_nat n = (if n < 10 then [''0123456789'' ! n]
                else str_nat (n div 10) @ [''0123456789'' ! (n mod 10)])"

declare str_nat.simps [simp del]

definition str_int :: "int \<Rightarrow> string" where
  "str_int n = (if n < 0 then ''-'' @ str_nat (nat (- n)) else str_nat (nat n))"

text \<open>
  \<open>str.strip()\<close> and \<open>bytes.strip()\<close>. Of the blanks of \<open>str.strip\<close> the ASCII ones
  are modelled.
\<close>

definition str_isspace :: "char \<Rightarrow> bool" where
  "str_isspace c = (of_char c \<in> {9, 10, 11, 12, 13, 28, 29, 30, 31, 32 :: nat})"

definition bytes_isspace :: "char \<Rightarrow> bool" where
  "bytes_isspace c = (of_char c \<in> {9, 10, 11, 12, 13, 32 :: nat})"

definition str_strip :: "string \<Rightarrow> string" where
  "str_strip s = rev (dropWhile str_isspace (rev (dropWhile str_isspace s)))"

definition bytes_strip :: "string \<Rightarrow> string" where
  "bytes_strip s = rev (dropWhile bytes_isspace (rev (dropWhile bytes_isspace s)))"

text \<open>
  \<open>template.format(**kwargs)\<close> for templates made of text, the escapes \<open>{{\<close> and
  \<open>}}\<close>, and fields \<open>{name}\<close>. An empty or numeric name asks for a positional
  argument, and there is none. A field with a conversion, a format specification, an
  attribute or an index (one of \<open>! : . [ {\<close> inside the braces), a character outside
  ASCII in a name, or a number of more than 18 digits is outside the model.
\<close>

definition format_lookup :: "(string \<times> string) list \<Rightarrow> string \<Rightarrow> exn + string" where
  "format_lookup kwargs name =
     (if name = [] then Inl IndexError
      else if list_all (\<lambda>c. c \<in> set ''0123456789'') name
        then (if length name \<le> 18 then Inl IndexError else Inl Unmodelled)
      else (case map_of kwargs name of None \<Rightarrow> Inl (KeyError name) | Some v \<Rightarrow> Inr v))"

definition emit :: "string \<Rightarrow> exn + string \<Rightarrow> exn + string" where
  "emit s r = (case r of Inl e \<Rightarrow> Inl e | Inr t \<Rightarrow> Inr (s @ t))"

fun format_text :: "(string \<times> string) list \<Rightarrow> string \<Rightarrow> exn + string"
  and format_field :: "(string \<times> string) list \<Rightarrow> string \<Rightarrow> string \<Rightarrow> exn + string" where
  "format_text kwargs [] = Inr []"
| "format_text kwargs (c # s) =
     (if c = CHR ''{'' then
        (case s of
           [] \<Rightarrow> Inl ValueError
         | d # s' \<Rightarrow> if d = CHR ''{'' then emit ''{'' (format_text kwargs s')
                     else format_field kwargs [] s)
      else if c = CHR ''}'' then
        (case s of
           [] \<Rightarrow> Inl ValueError
         | d # s' \<Rightarrow> if d = CHR ''}'' then emit ''}'' (format_text kwargs s')
                     else Inl ValueError)
      else emit [c] (format_text kwargs s))"
| "format_field kwargs name [] = Inl ValueError"
| "format_field kwargs name (c # s) =
     (if c = CHR ''}'' then
        (case format_lookup kwargs name of
           Inl e \<Rightarrow> Inl e
         | Inr v \<Rightarrow> emit v (format_text kwargs s))
      else if c \<in> set ''!:.[{'' \<or> 128 \<le> (of_char c :: nat) then Inl Unmodelled
      else format_field kwargs (name @ [c]) s)"

definition py_format :: "string \<Rightarrow> (string \<times> string) list \<Rightarrow> exn + string" where
  "py_format template kwargs = format_text kwargs template"

section \<open>The world outside the script\<close>

text \<open>
  What \<open>open\<close> and the decoder find at a path: no readable file (\<open>IOError\<close>); text that
  is not JSON (\<open>ValueError\<close>), with the keys the pairs hook met twice in the objects that
  were complete before the decoder gave up; or a document, as its syntax tree.
\<close>

datatype json_file = Missing | Unparsable "string list" | Document json

text \<open>
  The environment variables, the files under \<open>BASE_DIR\<close> and the outcome of the
  \<open>git\<close> command. \<open>None\<close> stands for an unset variable, a command that failed, a file
  or directory that cannot be read. \<open>py_repr\<close> is Python's \<open>str\<close> on the values whose
  text is not modelled (floats, lists, dicts).
\<close>

record env =
  PROBLEM_NAME :: "string option"
  HAS_GRADER :: "string option"
  HAS_MANAGER :: "string option"
  WEB_TERMINAL :: "string option"
  problem_json :: json_file
  subtasks_json :: json_file
  solutions_json :: json_file
  statement :: "string list option"
  git_output :: "string option"
  validator_dir :: "string list option"
  solution_dir :: "string list option"
  isfile :: "string \<Rightarrow> bool"
  py_repr :: "json \<Rightarrow> string"

definition py_str :: "env \<Rightarrow> json \<Rightarrow> string" where
  "py_str env v =
     (case v of
        JStr s \<Rightarrow> s
      | JInt n \<Rightarrow> str_int n
      | JBool b \<Rightarrow> (if b then ''True'' else ''False'')
      | JNull \<Rightarrow> ''None''
      | _ \<Rightarrow> py_repr env v)"

section \<open>Loading\<close>

text \<open>
  \<open>check_keys\<close>, lines 59-69. The loop over \<open>required_keys\<close> records one error per
  missing key; \<open>KeyError\<close> is raised after the loop. \<open>json_name\<close> is \<open>None\<close> or a
  string, and the empty string is false.
\<close>

fun check_keys_loop :: "json \<Rightarrow> string list \<Rightarrow> string option \<Rightarrow> bool \<Rightarrow> state \<Rightarrow> bool result" where
  "check_keys_loop data [] json_name key_not_found st = Inr (key_not_found, st)"
| "check_keys_loop data (key # keys) json_name key_not_found st =
     (case py_in key data of
        Inl e \<Rightarrow> Inl (e, st)
      | Inr present \<Rightarrow>
          if present then check_keys_loop data keys json_name key_not_found st
          else check_keys_loop data keys json_name True
                 (case json_name of
                    None \<Rightarrow> error (key @ '' is required'') st
                  | Some n \<Rightarrow> if n = [] then error (key @ '' is required'') st
                            else error (key @ '' is required in '' @ n) st))"

definition check_keys :: "json \<Rightarrow> string list \<Rightarrow> string option \<Rightarrow> state \<Rightarrow> unit result" where
  "check_keys data required_keys json_name st =
     and_then (check_keys_loop data required_keys json_name False st)
       (\<lambda>key_not_found st'. if key_not_found then Inl (KeyError [], st') else Inr ((), st'))"

text \<open>
  \<open>error_on_duplicate_keys\<close>, lines 72-79: \<open>data\<close> is the dict under construction; a
  key met again is reported and its value dropped.
\<close>

fun error_on_duplicate_keys_loop ::
  "(string \<times> json) list \<Rightarrow> (string \<times> json) list \<Rightarrow> state \<Rightarrow> (string \<times> json) list \<times> state" where
  "error_on_duplicate_keys_loop [] data st = (data, st)"
| "error_on_duplicate_keys_loop ((key, val) # ps) data st =
     (if key \<in> set (map fst data)
      then error_on_duplicate_keys_loop ps data (error (''duplicate key: '' @ key) st)
      else error_on_duplicate_keys_loop ps (data @ [(key, val)]) st)"

definition error_on_duplicate_keys :: "(string \<times> json) list \<Rightarrow> state \<Rightarrow> json \<times> state" where
  "error_on_duplicate_keys ordered_pairs st =
     (case error_on_duplicate_keys_loop ordered_pairs [] st of (data, st') \<Rightarrow> (JObj data, st'))"

text \<open>
  \<open>json.load(f, object_pairs_hook=error_on_duplicate_keys)\<close> on a well-formed document:
  the decoder finishes the values of an object before it hands the object's pairs to the
  hook, so inner objects are reported first.
\<close>

fun json_load :: "json \<Rightarrow> state \<Rightarrow> json \<times> state"
  and json_load_list :: "json list \<Rightarrow> state \<Rightarrow> json list \<times> state"
  and json_load_pairs :: "(string \<times> json) list \<Rightarrow> state \<Rightarrow> (string \<times> json) list \<times> state" where
  "json_load (JObj ps) st =
     (case json_load_pairs ps st of (ps', st') \<Rightarrow> error_on_duplicate_keys ps' st')"
| "json_load (JArr xs) st = (case json_load_list xs st of (xs', st') \<Rightarrow> (JArr xs', st'))"
| "json_load JNull st = (JNull, st)"
| "json_load (JBool b) st = (JBool b, st)"
| "json_load (JInt n) st = (JInt n, st)"
| "json_load (JFloat f) st = (JFloat f, st)"
| "json_load (JStr s) st = (JStr s, st)"
| "json_load_list [] st = ([], st)"
| "json_load_list (x # xs) st =
     (case json_load x st of (x', st') \<Rightarrow>
        (case json_load_list xs st' of (xs', st'') \<Rightarrow> (x' # xs', st'')))"
| "json_load_pairs [] st = ([], st)"
| "json_load_pairs ((k, v) # ps) st =
     (case json_load v st of (v', st') \<Rightarrow>
        (case json_load_pairs ps st' of (ps', st'') \<Rightarrow> ((k, v') # ps', st'')))"

fun report_duplicates :: "string list \<Rightarrow> state \<Rightarrow> state" where
  "report_duplicates [] st = st"
| "report_duplicates (k # ks) st = report_duplicates ks (error (''duplicate key: '' @ k) st)"

text \<open>\<open>load_data\<close>, lines 82-97. The result \<open>JNull\<close> is Python's \<open>None\<close>.\<close>

definition load_data :: "json_file \<Rightarrow> string list \<Rightarrow> state \<Rightarrow> json result" where
  "load_data file required_keys st =
     (case file of
        Missing \<Rightarrow> Inr (JNull, error ''file does not exists'' st)
      | Unparsable ks \<Rightarrow> Inr (JNull, error ''invalid json'' (report_duplicates ks st))
      | Document doc \<Rightarrow>
          (case json_load doc st of (data, st') \<Rightarrow>
             (case check_keys data required_keys None st' of
                Inl (e, st'') \<Rightarrow> if is_KeyError e then Inr (JNull, st'') else Inl (e, st'')
              | Inr (u, st'') \<Rightarrow> Inr (data, st''))))"

text \<open>\<open>is_ignored\<close> and \<open>get_list_of_files\<close>, lines 99-103.\<close>

definition is_ignored :: "string \<Rightarrow> bool" where
  "is_ignored file_name = list_ex (\<lambda>ending. suffix ending file_name) [''.exe'', ''.class'', ''~'']"

definition get_list_of_files :: "string list option \<Rightarrow> state \<Rightarrow> string list result" where
  "get_list_of_files directory st =
     (case directory of
        None \<Rightarrow> Inl (OSError, st)
      | Some listing \<Rightarrow> Inr (filter (\<lambda>file. \<not> is_ignored file) listing, st))"

section \<open>problem.json\<close>

definition valid_problem_types :: "string list" where
  "valid_problem_types = [''Batch'', ''Communication'', ''OutputOnly'', ''TwoSteps'']"

text \<open>\<open>'/'.join(xs)\<close>.\<close>

fun join_slash :: "string list \<Rightarrow> string" where
  "join_slash [] = []"
| "join_slash [x] = x"
| "join_slash (x # y # ys) = x @ ''/'' @ join_slash (y # ys)"

text \<open>
  Lines 111-118. The name of the git project is the output of the command, stripped,
  without its last four characters.
\<close>

definition verify_problem_name :: "env \<Rightarrow> json \<Rightarrow> state \<Rightarrow> unit result" where
  "verify_problem_name env problem st =
     and_then (attempt (py_getitem problem ''name'') st) (\<lambda>name st.
       if \<not> isinstance_str name then Inr ((), error ''name is not a string'' st)
       else if WEB_TERMINAL env \<noteq> Some ''true'' then
         (case git_output env of
            None \<Rightarrow> Inl (CalledProcessError, st)
          | Some out \<Rightarrow>
              (let stripped = bytes_strip out;
                   git_origin_name = take (length stripped - 4) stripped
               in if name \<noteq> JStr git_origin_name
                  then Inr ((), warning ''problem name and git project name are not the same'' st)
                  else Inr ((), st)))
       else Inr ((), st))"

text \<open>Lines 120-121.\<close>

definition verify_problem_title :: "json \<Rightarrow> state \<Rightarrow> unit result" where
  "verify_problem_title problem st =
     and_then (attempt (py_getitem problem ''title'') st) (\<lambda>title st.
       if \<not> isinstance_str title then Inr ((), error ''title is not a string'' st)
       else Inr ((), st))"

text \<open>Lines 123-140: the first line of the statement that is not blank.\<close>

definition verify_statement :: "env \<Rightarrow> json \<Rightarrow> state \<Rightarrow> unit result" where
  "verify_statement env problem st =
     (case statement env of
        None \<Rightarrow> Inr ((), warning ''statement does not exists'' st)
      | Some lines \<Rightarrow>
          (case find (\<lambda>line. str_strip line \<noteq> []) lines of
             None \<Rightarrow> Inr ((), warning ''statement is empty'' st)
           | Some first_line \<Rightarrow>
               if \<not> prefix ''#'' (str_strip first_line)
               then Inr ((), warning ''statement does not start with a title'' st)
               else
                 (let statement_title = str_strip (filter (\<lambda>c. c \<noteq> CHR ''#'') first_line)
                  in and_then (attempt (py_getitem problem ''title'') st) (\<lambda>title st.
                       if JStr statement_title \<noteq> title
                       then Inr ((), warning (''title ('' @ py_str env title
                                   @ '') does not match title in statement (''
                                   @ statement_title @ '')'') st)
                       else Inr ((), st)))))"

text \<open>Lines 142-143.\<close>

definition verify_problem_type :: "json \<Rightarrow> state \<Rightarrow> unit result" where
  "verify_problem_type problem st =
     and_then (attempt (py_getitem problem ''type'') st) (\<lambda>type st.
       if \<not> isinstance_str type \<or> type \<notin> set (map JStr valid_problem_types)
       then Inr ((), error (''type should be one of '' @ join_slash valid_problem_types) st)
       else Inr ((), st))"

text \<open>Lines 145-150.\<close>

definition verify_has_grader :: "json \<Rightarrow> state \<Rightarrow> unit result" where
  "verify_has_grader problem st =
     and_then (attempt (py_in ''has_grader'' problem) st) (\<lambda>present st.
       if \<not> present then Inr ((), st)
       else and_then (attempt (py_getitem problem ''has_grader'') st) (\<lambda>has_grader st.
         if \<not> isinstance_bool has_grader
         then Inr ((), error ''has_grader should be a boolean'' st)
         else and_then (attempt (py_getitem problem ''type'') st) (\<lambda>type st.
           if type = JStr ''OutputOnly'' \<and> has_grader = JBool True
           then Inr ((), warning ''output only problems could not have grader'' st)
           else Inr ((), st))))"

text \<open>Lines 152-159.\<close>

definition verify_has_manager :: "json \<Rightarrow> state \<Rightarrow> unit result" where
  "verify_has_manager problem st =
     and_then (attempt (py_in ''has_manager'' problem) st) (\<lambda>present st.
       if \<not> present then Inr ((), st)
       else and_then (attempt (py_getitem problem ''has_manager'') st) (\<lambda>has_manager st.
         if \<not> isinstance_bool has_manager
         then Inr ((), error ''has_manager should be a boolean'' st)
         else and_then (attempt (py_getitem problem ''type'') st) (\<lambda>type st.
           (let st1 = (if type = JStr ''Communication'' \<and> has_manager = JBool False
                       then warning ''communication problems must have manager'' st else st);
                st2 = (if type = JStr ''OutputOnly'' \<and> has_manager = JBool True
                       then warning ''output only problems could not have manager'' st1 else st1)
            in Inr ((), st2)))))"

text \<open>Lines 161-162: \<open>isinstance(t, float)\<close> holds for a float only.\<close>

definition time_limit_ok :: "json \<Rightarrow> bool" where
  "time_limit_ok t = (case t of JFloat f \<Rightarrow> \<not> float_less_half f | _ \<Rightarrow> False)"

definition verify_time_limit :: "json \<Rightarrow> state \<Rightarrow> unit result" where
  "verify_time_limit problem st =
     and_then (attempt (py_getitem problem ''time_limit'') st) (\<lambda>time_limit st.
       if \<not> time_limit_ok time_limit
       then Inr ((), error ''time_limit should be a number greater or equal to 0.5'' st)
       else Inr ((), st))"

text \<open>Lines 164-166, on Python's unbounded ints.\<close>

definition memory_limit_ok :: "json \<Rightarrow> bool" where
  "memory_limit_ok memory =
     (case py_int memory of
        None \<Rightarrow> False
      | Some m \<Rightarrow> \<not> (m < 1 \<or> m AND (m - 1) \<noteq> 0))"

definition verify_memory_limit :: "json \<Rightarrow> state \<Rightarrow> unit result" where
  "verify_memory_limit problem st =
     and_then (attempt (py_getitem problem ''memory_limit'') st) (\<lambda>memory st.
       if \<not> memory_limit_ok memory
       then Inr ((), error ''memory_limit should be an integer that is a power of two'' st)
       else Inr ((), st))"

text \<open>\<open>verify_problem\<close>, lines 106-168.\<close>

definition verify_problem :: "env \<Rightarrow> state \<Rightarrow> json result" where
  "verify_problem env st =
     and_then (load_data (problem_json env)
                 [''name'', ''title'', ''type'', ''time_limit'', ''memory_limit''] st)
       (\<lambda>problem st.
          if problem = JNull then Inr (problem, st)
          else
            and_then (verify_problem_name env problem st) (\<lambda>u st.
            and_then (verify_problem_title problem st) (\<lambda>u st.
            and_then (verify_statement env problem st) (\<lambda>u st.
            and_then (verify_problem_type problem st) (\<lambda>u st.
            and_then (verify_has_grader problem st) (\<lambda>u st.
            and_then (verify_has_manager problem st) (\<lambda>u st.
            and_then (verify_time_limit problem st) (\<lambda>u st.
            and_then (verify_memory_limit problem st) (\<lambda>u st.
              Inr (problem, st))))))))))"

section \<open>subtasks.json\<close>

text \<open>The double quote of the messages.\<close>

definition dquote :: string where
  "dquote = [CHR 0x22]"

text \<open>
  \<open>check_validator_key\<close>, lines 186-203, a closure over \<open>validator_files\<close> and the
  set \<open>used_validators\<close>, which it updates. The loop over \<open>enumerate(validators_list)\<close>
  carries the index.
\<close>

fun check_validator_loop ::
  "string list \<Rightarrow> string \<Rightarrow> string \<Rightarrow> nat \<Rightarrow> json list \<Rightarrow> string set \<Rightarrow> state
     \<Rightarrow> string set \<times> state" where
  "check_validator_loop validator_files name parLoc index [] used_validators st =
     (used_validators, st)"
| "check_validator_loop validator_files name parLoc index (validator_cmd_line # rest)
       used_validators st =
     (case validator_cmd_line of
        JStr line \<Rightarrow>
          (let validator_cmd = takeWhile (\<lambda>c. c \<noteq> CHR '' '') line
           in if CHR ''.'' \<in> set validator_cmd then
                (if validator_cmd \<notin> set validator_files
                 then check_validator_loop validator_files name parLoc (index + 1) rest
                        used_validators
                        (error (''File not found for '' @ name @ '' validator '' @ dquote @ validator_cmd
                                @ dquote @ parLoc) st)
                 else check_validator_loop validator_files name parLoc (index + 1) rest
                        (insert validator_cmd used_validators) st)
              else check_validator_loop validator_files name parLoc (index + 1) rest
                     used_validators st)
      | _ \<Rightarrow>
          check_validator_loop validator_files name parLoc (index + 1) rest used_validators
            (error (name @ '' validator #'' @ str_nat (index + 1) @ '' is not a string''
                    @ parLoc) st))"

definition check_validator_key ::
  "string list \<Rightarrow> json \<Rightarrow> string \<Rightarrow> string \<Rightarrow> string option \<Rightarrow> string set \<Rightarrow> state
     \<Rightarrow> string set result" where
  "check_validator_key validator_files parent key name parName used_validators st =
     and_then (attempt (py_in key parent) st) (\<lambda>present st.
       if \<not> present then Inr (used_validators, st)
       else and_then (attempt (py_getitem parent key) st) (\<lambda>validators_list st.
         (let parLoc = (case parName of None \<Rightarrow> [] | Some n \<Rightarrow> '' in '' @ dquote @ n @ dquote)
          in case validators_list of
               JArr xs \<Rightarrow>
                 Inr (check_validator_loop validator_files name parLoc 0 xs used_validators st)
             | _ \<Rightarrow> Inr (used_validators,
                         error (dquote @ key @ dquote @ '' is not an array'' @ parLoc) st))))"

text \<open>Lines 209-220: one entry of \<open>subtask_sensitive_validators\<close>.\<close>

definition subtask_placeholder_var :: string where
  "subtask_placeholder_var = ''subtask''"

definition subtask_placeholder_substitute :: string where
  "subtask_placeholder_substitute = ''___SUBTASK_PLACEHOLDER_SUBSTITUTE___''"

definition check_placeholder :: "json \<Rightarrow> state \<Rightarrow> unit result" where
  "check_placeholder subtask_sensitive_validator st =
     (case subtask_sensitive_validator of
        JStr template \<Rightarrow>
          (case py_format template [(subtask_placeholder_var, subtask_placeholder_substitute)] of
             Inl e \<Rightarrow>
               (case e of
                  KeyError k \<Rightarrow>
                    Inr ((), error (''Subtask-sensitive validator '' @ dquote @ template @ dquote
                                    @ '' contains unknown placeholder {'' @ k @ ''}.'') st)
                | _ \<Rightarrow> Inl (e, st))
           | Inr subtask_validator_substituted \<Rightarrow>
               if \<not> sublist subtask_placeholder_substitute subtask_validator_substituted
               then Inr ((), error (''Subtask-sensitive validator '' @ dquote @ template @ dquote
                                    @ '' does not contain the subtask placeholder {''
                                    @ subtask_placeholder_var @ ''}.'') st)
               else Inr ((), st))
      | _ \<Rightarrow> Inl (AttributeError, st))"

fun check_placeholders :: "json list \<Rightarrow> state \<Rightarrow> unit result" where
  "check_placeholders [] st = Inr ((), st)"
| "check_placeholders (v # vs) st =
     and_then (check_placeholder v st) (\<lambda>u st. check_placeholders vs st)"

text \<open>
  Lines 224-230. \<open>problem\<close> is the global that \<open>verify\<close> sets; only \<open>KeyError\<close> is
  handled, and the errors that \<open>check_keys\<close> recorded stay.
\<close>

definition check_samples :: "json \<Rightarrow> json \<Rightarrow> state \<Rightarrow> bool result" where
  "check_samples problem subtasks st =
     (case py_getitem problem ''type'' of
        Inl e \<Rightarrow> if is_KeyError e then Inr (False, st) else Inl (e, st)
      | Inr type \<Rightarrow>
          if type \<noteq> JStr ''OutputOnly'' then
            (case check_keys subtasks [''samples''] None st of
               Inl (e, st') \<Rightarrow> if is_KeyError e then Inr (False, st') else Inl (e, st')
             | Inr (u, st') \<Rightarrow> Inr (True, st'))
          else Inr (False, st))"

text \<open>
  Lines 235-255: the loop over \<open>subtasks.items()\<close>. Its variables are the set
  \<open>indexes\<close> (kept as the list of the values added), \<open>score_sum\<close> and
  \<open>used_validators\<close>.
\<close>

record subtask_vars =
  indexes :: "json list"
  score_sum :: int
  used_validators :: "string set"

definition verify_subtask ::
  "string list \<Rightarrow> string \<Rightarrow> json \<Rightarrow> subtask_vars \<Rightarrow> state \<Rightarrow> subtask_vars result" where
  "verify_subtask validator_files name data vars st =
     (if \<not> isinstance_dict data then Inr (vars, error (''invalid data in '' @ name) st)
      else
        (case check_keys data [''index'', ''score''] (Some name) st of
           Inl (e, st') \<Rightarrow> if is_KeyError e then Inr (vars, st') else Inl (e, st')
         | Inr (u, st) \<Rightarrow>
             and_then (attempt (py_getitem data ''index'') st) (\<lambda>index st.
             if \<not> hashable index then Inl (TypeError, st)
             else
               and_then (attempt (py_getitem data ''score'') st) (\<lambda>score st.
                 (let vars1 = vars\<lparr>indexes := indexes vars @ [index]\<rparr>;
                      scored =
                        (case py_int score of
                           None \<Rightarrow>
                             (vars1, error (''score should be a non-negative integer in subtask ''
                                            @ name) st)
                         | Some s \<Rightarrow>
                             if s < 0
                             then (vars1,
                                   error (''score should be a non-negative integer in subtask ''
                                          @ name) st)
                             else if name = ''samples''
                             then (if s \<noteq> 0
                                   then (vars1, error ''samples subtask score is non-zero'' st)
                                   else (vars1, st))
                             else (vars1\<lparr>score_sum := score_sum vars1 + s\<rparr>, st))
                  in and_then
                       (check_validator_key validator_files data ''validators'' ''subtask''
                          (Some name) (used_validators (fst scored)) (snd scored))
                       (\<lambda>used st. Inr ((fst scored)\<lparr>used_validators := used\<rparr>, st)))))))"

fun verify_subtask_loop ::
  "string list \<Rightarrow> (string \<times> json) list \<Rightarrow> subtask_vars \<Rightarrow> state \<Rightarrow> subtask_vars result" where
  "verify_subtask_loop validator_files [] vars st = Inr (vars, st)"
| "verify_subtask_loop validator_files ((name, data) # rest) vars st =
     and_then (verify_subtask validator_files name data vars st)
       (\<lambda>vars st. verify_subtask_loop validator_files rest vars st)"

text \<open>
  Lines 257-258. The order in which Python visits a set is not fixed; the model visits
  the files in the order of \<open>validator_files\<close>.
\<close>

fun warn_unused :: "string list \<Rightarrow> state \<Rightarrow> state" where
  "warn_unused [] st = st"
| "warn_unused (unused_validator # rest) st =
     warn_unused rest (warning (''Unused validator file '' @ dquote @ unused_validator @ dquote) st)"

text \<open>Lines 260-261.\<close>

definition check_score_sum :: "int \<Rightarrow> state \<Rightarrow> state" where
  "check_score_sum s st =
     (if s \<noteq> 100 then error (''sum of scores is '' @ str_int s) st else st)"

text \<open>Lines 263-265: \<open>i\<close> ranges over \<open>range(len(subtasks))\<close>.\<close>

fun check_indexes :: "bool \<Rightarrow> json list \<Rightarrow> nat list \<Rightarrow> state \<Rightarrow> state" where
  "check_indexes hasSamples idxs [] st = st"
| "check_indexes hasSamples idxs (i # rest) st =
     check_indexes hasSamples idxs rest
       (if \<not> list_ex (\<lambda>v. py_eq_int v (int i + (if hasSamples then 0 else 1))) idxs
        then error (''missing index '' @ str_nat i @ '' in subtask indexes'') st
        else st)"

text \<open>
  \<open>verify_subtasks\<close>, lines 171-267, in two parts: lines 186-267, once
  \<open>validator_files\<close> is known, and the whole. \<open>validator_files\<close> is a set turned
  into a list: the model keeps the order of the directory listing.
\<close>

definition verify_subtasks_checks :: "string list \<Rightarrow> json \<Rightarrow> json \<Rightarrow> state \<Rightarrow> json result" where
  "verify_subtasks_checks validator_files problem subtasks_data st =
     and_then (check_validator_key validator_files subtasks_data ''global_validators''
                 ''global'' None {} st) (\<lambda>used st.
     and_then (check_validator_key validator_files subtasks_data
                 ''subtask_sensitive_validators'' ''subtask-sensitive'' None used st) (\<lambda>used st.
     and_then (attempt (py_get subtasks_data ''subtask_sensitive_validators'') st) (\<lambda>sensitive st.
     and_then (attempt (py_iter sensitive) st) (\<lambda>entries st.
     and_then (check_placeholders entries st) (\<lambda>u st.
     and_then (attempt (py_getitem subtasks_data ''subtasks'') st) (\<lambda>subtasks st.
     and_then (check_samples problem subtasks st) (\<lambda>hasSamples st.
     and_then (attempt (py_items subtasks) st) (\<lambda>items st.
     and_then (verify_subtask_loop validator_files items
                 \<lparr>indexes = [], score_sum = 0, used_validators = used\<rparr> st) (\<lambda>vars st.
       Inr (subtasks,
            check_indexes hasSamples (indexes vars) [0 ..< length items]
              (check_score_sum (score_sum vars)
                 (warn_unused (filter (\<lambda>f. f \<notin> used_validators vars) validator_files)
                    st))))))))))))"

definition verify_subtasks :: "env \<Rightarrow> json \<Rightarrow> state \<Rightarrow> json result" where
  "verify_subtasks env problem st =
     and_then (load_data (subtasks_json env) [''subtasks''] st) (\<lambda>subtasks_data st.
       if subtasks_data = JNull then Inr (JNull, st)
       else
         and_then (attempt (py_in ''global_validators'' subtasks_data) st) (\<lambda>has_glob st.
         and_then (attempt (if has_glob then Inr True
                            else py_in ''subtask_sensitive_validators'' subtasks_data) st)
           (\<lambda>has_any st.
              if \<not> has_any
              then Inr (JNull,
                     error (''Neither '' @ dquote @ ''global_validators'' @ dquote @ '' nor ''
                            @ dquote @ ''subtask_sensitive_validators'' @ dquote
                            @ '' is present in '' @ dquote @ ''subtasks.json'' @ dquote @ ''.'') st)
              else
                and_then (get_list_of_files (validator_dir env) st) (\<lambda>files st.
                  verify_subtasks_checks
                    (filter (\<lambda>f. f \<notin> {''testlib.h'', ''Makefile''}) (remdups files))
                    problem subtasks_data st))))"

section \<open>solutions.json\<close>

definition model_solution_verdict :: string where
  "model_solution_verdict = ''model_solution''"

definition valid_verdicts :: "string list" where
  "valid_verdicts =
     [model_solution_verdict, ''correct'', ''time_limit'', ''memory_limit'', ''incorrect'',
      ''runtime_error'', ''failed'', ''time_limit_and_runtime_error'', ''partially_correct'']"

text \<open>\<open>verify_verdict\<close>, lines 270-274.\<close>

definition verify_verdict :: "json \<Rightarrow> string \<Rightarrow> state \<Rightarrow> bool \<times> state" where
  "verify_verdict verdict key_name st =
     (if \<not> isinstance_str verdict \<or> verdict \<notin> set (map JStr valid_verdicts)
      then (False, error (key_name @ '' verdict should be one of '' @ join_slash valid_verdicts) st)
      else (True, st))"

text \<open>Lines 316-320: the loop over the keys of \<open>exceptions\<close>.\<close>

fun verify_exceptions ::
  "json \<Rightarrow> string \<Rightarrow> (string \<times> json) list \<Rightarrow> json \<Rightarrow> state \<Rightarrow> unit result" where
  "verify_exceptions subtasks solution [] exceptions st = Inr ((), st)"
| "verify_exceptions subtasks solution ((subtask_verdict, v) # rest) exceptions st =
     and_then (attempt (py_in subtask_verdict subtasks) st) (\<lambda>present st.
       if \<not> present
       then verify_exceptions subtasks solution rest exceptions
              (error (''subtask '' @ dquote @ subtask_verdict @ dquote
                      @ '' is not defined and cannot be used in except'') st)
       else
         and_then (attempt (py_getitem exceptions subtask_verdict) st) (\<lambda>verdict st.
           verify_exceptions subtasks solution rest exceptions
             (snd (verify_verdict verdict (solution @ ''.except.'' @ subtask_verdict) st))))"

text \<open>Lines 311-320.\<close>

definition verify_except :: "json \<Rightarrow> string \<Rightarrow> json \<Rightarrow> state \<Rightarrow> unit result" where
  "verify_except subtasks solution data st =
     and_then (attempt (py_in ''except'' data) st) (\<lambda>present st.
       if \<not> present then Inr ((), st)
       else
         and_then (attempt (py_getitem data ''except'') st) (\<lambda>exceptions st.
           case exceptions of
             JObj kvs \<Rightarrow> verify_exceptions subtasks solution kvs exceptions st
           | _ \<Rightarrow> Inr ((), error (''invalid except format in '' @ solution) st)))"

text \<open>
  Lines 292-320: one turn of the loop over \<open>solutions\<close>, with its variables
  \<open>model_solution\<close> and \<open>solution_files\<close> (a set, kept as a list without repetition).
\<close>

record solution_vars =
  model_solution :: "string option"
  solution_files :: "string list"

definition verify_solution ::
  "env \<Rightarrow> json \<Rightarrow> json \<Rightarrow> json \<Rightarrow> solution_vars \<Rightarrow> state \<Rightarrow> solution_vars result" where
  "verify_solution env subtasks solutions solution vars st =
     (if \<not> hashable solution then Inl (TypeError, st)
      else
        (case solution of
           JStr name \<Rightarrow>
             if name \<notin> set (solution_files vars)
             then Inr (vars, error (name @ '' does not exists'') st)
             else
               (let vars1 = vars\<lparr>solution_files := removeAll name (solution_files vars)\<rparr>
                in and_then (attempt (py_getitem solutions name) st) (\<lambda>data st.
                   (case check_keys data [''verdict''] (Some name) st of
                      Inl (e, st') \<Rightarrow> if is_KeyError e then Inr (vars1, st') else Inl (e, st')
                    | Inr (u, st) \<Rightarrow>
                        and_then (attempt (py_getitem data ''verdict'') st) (\<lambda>verdict st.
                          (let verified = verify_verdict verdict name st;
                               st1 = snd verified;
                               is_model = (fst verified \<and> verdict = JStr model_solution_verdict);
                               st2 = (if is_model \<and> model_solution vars1 \<noteq> None
                                      then error ''there is more than one model solutions'' st1
                                      else st1);
                               vars2 = (if is_model then vars1\<lparr>model_solution := Some name\<rparr>
                                        else vars1)
                           in and_then (verify_except subtasks name data st2)
                                (\<lambda>u st. Inr (vars2, st)))))))
         | _ \<Rightarrow> Inr (vars, error (py_str env solution @ '' does not exists'') st)))"

fun verify_solution_loop ::
  "env \<Rightarrow> json \<Rightarrow> json \<Rightarrow> json list \<Rightarrow> solution_vars \<Rightarrow> state \<Rightarrow> solution_vars result" where
  "verify_solution_loop env subtasks solutions [] vars st = Inr (vars, st)"
| "verify_solution_loop env subtasks solutions (solution # rest) vars st =
     and_then (verify_solution env subtasks solutions solution vars st)
       (\<lambda>vars st. verify_solution_loop env subtasks solutions rest vars st)"

text \<open>
  Lines 325-326. The order in which Python visits a set is not fixed; the model visits
  the files in the order of the directory listing.
\<close>

fun report_unrepresented :: "string list \<Rightarrow> state \<Rightarrow> state" where
  "report_unrepresented [] st = st"
| "report_unrepresented (solution # rest) st =
     report_unrepresented rest (error (solution @ '' is not represented'') st)"

text \<open>\<open>verify_solutions\<close>, lines 284-328.\<close>

definition verify_solutions :: "env \<Rightarrow> json \<Rightarrow> state \<Rightarrow> json result" where
  "verify_solutions env subtasks st =
     and_then (load_data (solutions_json env) [] st) (\<lambda>solutions st.
       if solutions = JNull \<or> subtasks = JNull then Inr (solutions, st)
       else
         and_then (get_list_of_files (solution_dir env) st) (\<lambda>files st.
         and_then (attempt (py_iter solutions) st) (\<lambda>entries st.
         and_then (verify_solution_loop env subtasks solutions entries
                     \<lparr>model_solution = None, solution_files = remdups files\<rparr> st) (\<lambda>vars st.
           Inr (solutions,
                report_unrepresented (solution_files vars)
                  (if model_solution vars = None then error ''there is no model solution'' st
                   else st))))))"

section \<open>Required files and the whole run\<close>

definition necessary_files :: "string list" where
  "necessary_files =
     [''checker/testlib.h'', ''checker/Makefile'', ''checker/checker.cpp'',
      ''validator/testlib.h'', ''validator/Makefile'',
      ''gen/testlib.h'', ''gen/Makefile'', ''gen/data'']"

text \<open>Lines 29-35, with \<open>java_enabled = True\<close> and \<open>pascal_enabled = False\<close>.\<close>

definition grader_necessary_files :: "env \<Rightarrow> string list" where
  "grader_necessary_files env =
     [''grader/cpp/'' @ (case PROBLEM_NAME env of None \<Rightarrow> ''None'' | Some n \<Rightarrow> n) @ ''.h'',
      ''grader/cpp/grader.cpp'', ''grader/java/grader.java'']"

definition manager_necessary_files :: "string list" where
  "manager_necessary_files = [''grader/Makefile'', ''grader/manager.cpp'']"

text \<open>\<open>verify_existence\<close>, lines 331-334.\<close>

fun verify_existence :: "env \<Rightarrow> string list \<Rightarrow> state \<Rightarrow> state" where
  "verify_existence env [] st = st"
| "verify_existence env (file # files) st =
     verify_existence env files (if \<not> isfile env file then error file st else st)"

text \<open>
  \<open>verify\<close>, lines 337-354, up to the printing of the lists: the result is the final
  value of the globals.
\<close>

definition verify :: "env \<Rightarrow> state \<Rightarrow> unit result" where
  "verify env st =
     and_then (verify_problem env (st\<lparr>namespace := ''problem.json''\<rparr>)) (\<lambda>problem st.
     and_then (verify_subtasks env problem (st\<lparr>namespace := ''subtasks.json''\<rparr>)) (\<lambda>subtasks st.
     and_then (verify_solutions env subtasks (st\<lparr>namespace := ''solutions.json''\<rparr>)) (\<lambda>u st.
       (let st1 = verify_existence env necessary_files (st\<lparr>namespace := ''not found''\<rparr>);
            st2 = (if HAS_GRADER env = Some ''true''
                   then verify_existence env (grader_necessary_files env) st1 else st1);
            st3 = (if HAS_MANAGER env = Some ''true''
                   then verify_existence env manager_necessary_files st2 else st2)
        in Inr ((), st3)))))"

section \<open>Notions used to state the properties\<close>

text \<open>The line that \<open>error\<close> appends for a description.\<close>

definition err_msg :: "string \<Rightarrow> string \<Rightarrow> string" where
  "err_msg ns description = ''ERROR: '' @ ns @ '' - '' @ description"

text \<open>The errors recorded between two states of one run.\<close>

definition recorded :: "state \<Rightarrow> state \<Rightarrow> string list" where
  "recorded st st' = drop (length (errors st)) (errors st')"

text \<open>The globals when a call is over, whether it returned or raised.\<close>

definition final_state :: "'a result \<Rightarrow> state" where
  "final_state r = (case r of Inl (e, st) \<Rightarrow> st | Inr (x, st) \<Rightarrow> st)"

text \<open>
  From \<open>st\<close> to \<open>st'\<close> the namespace is kept and the errors appended have descriptions
  in \<open>D\<close>.
\<close>

definition grows :: "(string \<Rightarrow> bool) \<Rightarrow> state \<Rightarrow> state \<Rightarrow> bool" where
  "grows D st st' \<longleftrightarrow>
     namespace st' = namespace st \<and>
     (\<exists>ds. errors st' = errors st @ map (err_msg (namespace st)) ds \<and> list_all D ds)"


fun repeated :: "string list \<Rightarrow> string list \<Rightarrow> string list" where
  "repeated seen [] = []"
| "repeated seen (k # ks) =
     (if k \<in> set seen then k # repeated seen ks else repeated (seen @ [k]) ks)"

fun repeated_keys :: "json \<Rightarrow> string list"
  and repeated_keys_list :: "json list \<Rightarrow> string list"
  and repeated_keys_pairs :: "(string \<times> json) list \<Rightarrow> string list" where
  "repeated_keys (JObj ps) = repeated_keys_pairs ps @ repeated [] (map fst ps)"
| "repeated_keys (JArr xs) = repeated_keys_list xs"
| "repeated_keys JNull = []"
| "repeated_keys (JBool b) = []"
| "repeated_keys (JInt n) = []"
| "repeated_keys (JFloat f) = []"
| "repeated_keys (JStr s) = []"
| "repeated_keys_list [] = []"
| "repeated_keys_list (x # xs) = repeated_keys x @ repeated_keys_list xs"
| "repeated_keys_pairs [] = []"
| "repeated_keys_pairs ((k, v) # ps) = repeated_keys v @ repeated_keys_pairs ps"

text \<open>
  A package to run the script on: \<open>WEB_TERMINAL\<close> is \<open>true\<close>, no file is there
  yet, and the two directories are empty. The examples below put documents into it.
\<close>

definition empty_package :: env where
  "empty_package =
     \<lparr>PROBLEM_NAME = Some ''p'', HAS_GRADER = None, HAS_MANAGER = None,
      WEB_TERMINAL = Some ''true'',
      problem_json = Missing, subtasks_json = Missing, solutions_json = Missing,
      statement = None, git_output = None,
      validator_dir = Some [], solution_dir = Some [],
      isfile = (\<lambda>path. False), py_repr = (\<lambda>v. [])\<rparr>"

definition start :: "string \<Rightarrow> state" where
  "start ns = \<lparr>errors = [], warnings = [], namespace = ns\<rparr>"

text \<open>A problem.json with the given limits.\<close>

definition problem_with :: "json \<Rightarrow> json \<Rightarrow> json" where
  "problem_with time_limit memory_limit =
     JObj [(''name'', JStr ''p''), (''title'', JStr ''P''), (''type'', JStr ''Batch''),
           (''time_limit'', time_limit), (''memory_limit'', memory_limit)]"



abbreviation subtask_kwargs :: "(string \<times> string) list" where
  "subtask_kwargs \<equiv> [(subtask_placeholder_var, subtask_placeholder_substitute)]"

text \<open>
  \<open>D\<close> holds of every description that \<open>verify_subtasks\<close> can record before its
  checks of the sum and of the indexes.
\<close>

definition subtasks_desc_ok :: "(string \<Rightarrow> bool) \<Rightarrow> bool" where
  "subtasks_desc_ok D \<longleftrightarrow>
     (\<forall>x. D (''duplicate key: '' @ x)) \<and> D ''file does not exists'' \<and> D ''invalid json'' \<and>
     D ''subtasks is required'' \<and> D ''samples is required'' \<and>
     (\<forall>x. D (''index is required'' @ x)) \<and> (\<forall>x. D (''score is required'' @ x)) \<and>
     (\<forall>x. D (''Neither '' @ x)) \<and> (\<forall>x. D (dquote @ x)) \<and>
     (\<forall>x. D (''global validator #'' @ x)) \<and> (\<forall>x. D (''subtask-sensitive validator #'' @ x)) \<and>
     (\<forall>x. D (''subtask validator #'' @ x)) \<and>
     (\<forall>x. D (''File not found for '' @ x)) \<and>
     (\<forall>x. D (''Subtask-sensitive validator '' @ x)) \<and>
     (\<forall>x. D (''invalid data in '' @ x)) \<and>
     (\<forall>x. D (''score should be a non-negative integer in subtask '' @ x)) \<and>
     D ''samples subtask score is non-zero''"

text \<open>
  What the loop over the subtasks takes from one entry: the entry is counted when it is
  a dict with the keys \<open>index\<close> and \<open>score\<close>; its index joins \<open>indexes\<close>; its score
  joins the sum when it is a non-negative int and the subtask is not \<open>samples\<close>.
\<close>

definition counted_entry :: "json \<Rightarrow> bool" where
  "counted_entry data =
     (case data of
        JObj kvs \<Rightarrow> ''index'' \<in> set (map fst kvs) \<and> ''score'' \<in> set (map fst kvs)
      | _ \<Rightarrow> False)"

definition entry_score :: "json \<Rightarrow> int option" where
  "entry_score data =
     (if counted_entry data then
        (case py_getitem data ''score'' of
           Inr score \<Rightarrow> (case py_int score of
                           Some s \<Rightarrow> if 0 \<le> s then Some s else None
                         | None \<Rightarrow> None)
         | Inl e \<Rightarrow> None)
      else None)"

definition non_sample_score :: "string \<times> json \<Rightarrow> int" where
  "non_sample_score item =
     (if fst item = ''samples'' then 0
      else (case entry_score (snd item) of Some s \<Rightarrow> s | None \<Rightarrow> 0))"

definition entry_indexes :: "string \<times> json \<Rightarrow> json list" where
  "entry_indexes item =
     (if counted_entry (snd item) then
        (case py_getitem (snd item) ''index'' of Inr index \<Rightarrow> [index] | Inl e \<Rightarrow> [])
      else [])"

text \<open>
  Line 226-228: \<open>hasSamples\<close> is set when the problem type is not \<open>OutputOnly\<close> and
  the subtasks have the key \<open>samples\<close>.
\<close>

definition samples_expected :: "json \<Rightarrow> (string \<times> json) list \<Rightarrow> bool" where
  "samples_expected problem items =
     (case py_getitem problem ''type'' of
        Inr type \<Rightarrow> type \<noteq> JStr ''OutputOnly'' \<and> ''samples'' \<in> set (map fst items)
      | Inl e \<Rightarrow> False)"

text \<open>Position \<open>i\<close> of the range is covered by the recorded indexes.\<close>

definition covered :: "bool \<Rightarrow> json list \<Rightarrow> nat \<Rightarrow> bool" where
  "covered hasSamples idxs i =
     list_ex (\<lambda>v. py_eq_int v (int i + (if hasSamples then 0 else 1))) idxs"

text \<open>
  Examples: a problem of which only the type matters, a subtasks.json with the given
  subtasks and an empty list of global validators, and a subtask with index and score.
\<close>

definition problem_of_type :: "string \<Rightarrow> json" where
  "problem_of_type t = JObj [(''type'', JStr t)]"

definition subtasks_file :: "(string \<times> json) list \<Rightarrow> json_file" where
  "subtasks_file items =
     Document (JObj [(''subtasks'', JObj items), (''global_validators'', JArr [])])"

definition subtask_entry :: "int \<Rightarrow> int \<Rightarrow> json" where
  "subtask_entry index score = JObj [(''index'', JInt index), (''score'', JInt score)]"

text \<open>
  \<open>D\<close> holds of every description that \<open>verify_solutions\<close> can record apart from
  the two about the model solution.
\<close>

definition solutions_desc_ok :: "(string \<Rightarrow> bool) \<Rightarrow> bool" where
  "solutions_desc_ok D \<longleftrightarrow>
     (\<forall>x. D (''duplicate key: '' @ x)) \<and> D ''file does not exists'' \<and> D ''invalid json'' \<and>
     (\<forall>x. D (''verdict is required'' @ x)) \<and>
     (\<forall>x. D (x @ '' verdict should be one of '' @ join_slash valid_verdicts)) \<and>
     (\<forall>x. D (''subtask '' @ x)) \<and>
     (\<forall>x. D (''invalid except format in '' @ x)) \<and>
     (\<forall>x. D (x @ '' does not exists'')) \<and>
     (\<forall>x. D (x @ '' is not represented''))"

text \<open>How often the description \<open>t\<close> was recorded between two states of one run.\<close>

definition added :: "string \<Rightarrow> state \<Rightarrow> state \<Rightarrow> nat" where
  "added t st st' = count_list (recorded st st') (err_msg (namespace st) t)"

text \<open>
  An entry of solutions.json that is represented, that is, whose file is in the solution
  directory, and has the verdict \<open>model_solution\<close>.
\<close>

definition is_model_entry :: "string list \<Rightarrow> string \<times> json \<Rightarrow> bool" where
  "is_model_entry files entry =
     (fst entry \<in> set files \<and>
      py_getitem (snd entry) ''verdict'' = Inr (JStr model_solution_verdict))"

text \<open>A solutions.json, and a solution with a verdict.\<close>

definition solution_entry :: "string \<Rightarrow> json" where
  "solution_entry verdict = JObj [(''verdict'', JStr verdict)]"

section \<open>Basic facts\<close>

lemma error_simps [simp]:
  "errors (error d st) = errors st @ [err_msg (namespace st) d]"
  "warnings (error d st) = warnings st"
  "namespace (error d st) = namespace st"
  by (simp_all add: error_def err_msg_def)

lemma warning_simps [simp]:
  "errors (warning d st) = errors st"
  "warnings (warning d st) = warnings st @ [''WARNING: '' @ namespace st @ '' - '' @ d]"
  "namespace (warning d st) = namespace st"
  by (simp_all add: warning_def)

lemma err_msg_inj [simp]: "err_msg ns d = err_msg ns d' \<longleftrightarrow> d = d'"
  by (simp add: err_msg_def)

lemma final_state_simps [simp]:
  "final_state (Inl (e, st)) = st"
  "final_state (Inr (x, st)) = st"
  by (simp_all add: final_state_def)

lemma and_then_simps [simp]:
  "and_then (Inl e) f = Inl e"
  "and_then (Inr (x, st)) f = f x st"
  by (simp_all add: and_then_def)

lemma and_then_Inr:
  "and_then m f = Inr r \<longleftrightarrow> (\<exists>x st. m = Inr (x, st) \<and> f x st = Inr r)"
  by (cases m) (auto simp: and_then_def)

lemma attempt_simps [simp]:
  "attempt (Inl e) st = Inl (e, st)"
  "attempt (Inr x) st = Inr (x, st)"
  by (simp_all add: attempt_def)

lemma attempt_Inr: "attempt r st = Inr (x, st') \<longleftrightarrow> r = Inr x \<and> st' = st"
  by (cases r) auto

lemma final_state_attempt [simp]: "final_state (attempt r st) = st"
  by (cases r) auto

lemma grows_refl [simp]: "grows D st st"
  by (simp add: grows_def)

lemma grows_trans: "grows D st st1 \<Longrightarrow> grows D st1 st2 \<Longrightarrow> grows D st st2"
  unfolding grows_def
proof (elim conjE exE)
  fix ds es
  assume n: "namespace st1 = namespace st" "namespace st2 = namespace st1"
    and e: "errors st1 = errors st @ map (err_msg (namespace st)) ds"
           "errors st2 = errors st1 @ map (err_msg (namespace st1)) es"
    and d: "list_all D ds" "list_all D es"
  have "errors st2 = errors st @ map (err_msg (namespace st)) (ds @ es)"
    using n e by simp
  moreover have "list_all D (ds @ es)" using d by simp
  ultimately show "namespace st2 = namespace st \<and>
      (\<exists>ds. errors st2 = errors st @ map (err_msg (namespace st)) ds \<and> list_all D ds)"
    using n by metis
qed

lemma grows_error: "D d \<Longrightarrow> grows D st (error d st)"
  unfolding grows_def by (intro conjI exI[of _ "[d]"]) simp_all

lemma grows_warning [simp]: "grows D st (warning d st)"
  by (simp add: grows_def)

lemma grows_error_trans: "grows D st st1 \<Longrightarrow> D d \<Longrightarrow> grows D st (error d st1)"
  by (erule grows_trans) (rule grows_error)

lemma grows_and_then:
  assumes "grows D st (final_state m)"
    and "\<And>x s. m = Inr (x, s) \<Longrightarrow> grows D s (final_state (f x s))"
  shows "grows D st (final_state (and_then m f))"
proof (cases m)
  case (Inl e)
  with assms(1) show ?thesis by (cases e) simp
next
  case (Inr p)
  obtain x s where p: "p = (x, s)" by (cases p)
  from assms(1) Inr p have "grows D st s" by simp
  moreover from assms(2) Inr p have "grows D s (final_state (f x s))" by simp
  ultimately show ?thesis using Inr p by (simp add: grows_trans)
qed

lemma grows_mono: "grows D st st' \<Longrightarrow> (\<And>d. D d \<Longrightarrow> E d) \<Longrightarrow> grows E st st'"
  unfolding grows_def by (auto simp: list_all_iff)

lemma grows_recorded:
  "grows D st st' \<Longrightarrow>
     errors st' = errors st @ recorded st st' \<and>
     (\<forall>m \<in> set (recorded st st'). \<exists>d. D d \<and> m = err_msg (namespace st) d)"
  unfolding grows_def recorded_def by (auto simp: list_all_iff)

lemma recorded_append: "errors st' = errors st @ new \<Longrightarrow> recorded st st' = new"
  by (simp add: recorded_def)

lemma recorded_self [simp]: "recorded st st = []"
  by (simp add: recorded_def)

section \<open>The loader\<close>


lemma dup_loop:
  "error_on_duplicate_keys_loop ps data st = (data', st') \<Longrightarrow>
     namespace st' = namespace st \<and> warnings st' = warnings st \<and>
     errors st' = errors st
        @ map (\<lambda>k. err_msg (namespace st) (''duplicate key: '' @ k))
            (repeated (map fst data) (map fst ps)) \<and>
     set (map fst data') = set (map fst data) \<union> set (map fst ps) \<and>
     (distinct (map fst data) \<longrightarrow> distinct (map fst data'))"
proof (induction ps data st rule: error_on_duplicate_keys_loop.induct)
  case (1 data st)
  then show ?case by simp
next
  case (2 key val ps data st)
  then show ?case
    by (auto split: if_splits)
qed


lemma json_load_errors:
  "namespace (snd (json_load doc st)) = namespace st \<and>
   warnings (snd (json_load doc st)) = warnings st \<and>
   errors (snd (json_load doc st)) = errors st
     @ map (\<lambda>k. err_msg (namespace st) (''duplicate key: '' @ k)) (repeated_keys doc)"
  "namespace (snd (json_load_list xs st)) = namespace st \<and>
   warnings (snd (json_load_list xs st)) = warnings st \<and>
   errors (snd (json_load_list xs st)) = errors st
     @ map (\<lambda>k. err_msg (namespace st) (''duplicate key: '' @ k)) (repeated_keys_list xs)"
  "namespace (snd (json_load_pairs ps st)) = namespace st \<and>
   warnings (snd (json_load_pairs ps st)) = warnings st \<and>
   errors (snd (json_load_pairs ps st)) = errors st
     @ map (\<lambda>k. err_msg (namespace st) (''duplicate key: '' @ k)) (repeated_keys_pairs ps) \<and>
   map fst (fst (json_load_pairs ps st)) = map fst ps"
proof (induction doc st and xs st and ps st rule: json_load_json_load_list_json_load_pairs.induct)
  case (1 ps st)
  obtain ps' st' where p: "json_load_pairs ps st = (ps', st')" by (cases "json_load_pairs ps st")
  obtain data st'' where l: "error_on_duplicate_keys_loop ps' [] st' = (data, st'')"
    by (cases "error_on_duplicate_keys_loop ps' [] st'")
  from 1 p dup_loop[OF l] l show ?case
    by (simp add: error_on_duplicate_keys_def)
next
  case (9 x xs st)
  obtain x' st' where a: "json_load x st = (x', st')" by (cases "json_load x st")
  obtain xs' st'' where b: "json_load_list xs st' = (xs', st'')" by (cases "json_load_list xs st'")
  from 9(1) 9(2)[OF a[symmetric]] a b show ?case by simp
next
  case (11 k v ps st)
  obtain v' st' where a: "json_load v st = (v', st')" by (cases "json_load v st")
  obtain ps' st'' where b: "json_load_pairs ps st' = (ps', st'')" by (cases "json_load_pairs ps st'")
  from 11(1) 11(2)[OF a[symmetric]] a b show ?case by simp
qed (auto split: prod.splits)




section \<open>Duplicate keys (C1)\<close>




section \<open>What the loader records\<close>

lemma check_keys_loop_grows:
  assumes "\<And>k. k \<in> set keys \<Longrightarrow> D (k @ '' is required'')"
    and "\<And>k n. k \<in> set keys \<Longrightarrow> json_name = Some n \<Longrightarrow> n \<noteq> [] \<Longrightarrow> D (k @ '' is required in '' @ n)"
  shows "grows D st (final_state (check_keys_loop data keys json_name b st))"
  using assms
proof (induction keys arbitrary: b st)
  case Nil
  then show ?case by simp
next
  case (Cons key keys)
  have ih: "\<And>b st. grows D st (final_state (check_keys_loop data keys json_name b st))"
    using Cons by simp
  show ?case
  proof (cases "py_in key data")
    case (Inl e)
    then show ?thesis by simp
  next
    case (Inr present)
    show ?thesis
    proof (cases present)
      case True
      with Inr ih show ?thesis by simp
    next
      case False
      have "grows D st (case json_name of
                    None \<Rightarrow> error (key @ '' is required'') st
                  | Some n \<Rightarrow> if n = [] then error (key @ '' is required'') st
                            else error (key @ '' is required in '' @ n) st)"
        using Cons.prems by (auto split: option.splits intro!: grows_error)
      with ih[where b=True] Inr False show ?thesis
        by (auto intro: grows_trans)
    qed
  qed
qed

lemma check_keys_grows:
  assumes "\<And>k. k \<in> set keys \<Longrightarrow> D (k @ '' is required'')"
    and "\<And>k n. k \<in> set keys \<Longrightarrow> json_name = Some n \<Longrightarrow> n \<noteq> [] \<Longrightarrow> D (k @ '' is required in '' @ n)"
  shows "grows D st (final_state (check_keys data keys json_name st))"
  unfolding check_keys_def
  by (rule grows_and_then, rule check_keys_loop_grows[OF assms]) (auto)

lemma report_duplicates_grows:
  assumes "\<And>k. D (''duplicate key: '' @ k)"
  shows "grows D st (report_duplicates ks st)"
proof (induction ks arbitrary: st)
  case Nil
  then show ?case by simp
next
  case (Cons k ks)
  have "grows D st (error (''duplicate key: '' @ k) st)"
    by (rule grows_error) (rule assms)
  then show ?case
    using Cons[of "error (''duplicate key: '' @ k) st"]
    by (simp only: report_duplicates.simps) (rule grows_trans)
qed

lemma json_load_grows:
  assumes "\<And>k. D (''duplicate key: '' @ k)"
  shows "grows D st (snd (json_load doc st))"
  unfolding grows_def using json_load_errors(1)[of doc st] assms
  by (auto simp: list_all_iff intro!: exI[of _ "map (\<lambda>k. ''duplicate key: '' @ k) (repeated_keys doc)"])

lemma load_data_grows:
  assumes "\<And>k. D (''duplicate key: '' @ k)" "D ''file does not exists''" "D ''invalid json''"
    and "\<And>k. k \<in> set keys \<Longrightarrow> D (k @ '' is required'')"
  shows "grows D st (final_state (load_data f keys st))"
proof (cases f)
  case Missing
  then show ?thesis using assms(2) by (simp add: load_data_def grows_error)
next
  case (Unparsable ks)
  then show ?thesis using assms(3) report_duplicates_grows[of D st ks, OF assms(1)]
    by (simp add: load_data_def grows_error_trans)
next
  case (Document doc)
  obtain data st1 where j: "json_load doc st = (data, st1)" by (cases "json_load doc st")
  have g1: "grows D st st1" using json_load_grows[of D st doc, OF assms(1)] j by simp
  have g2: "grows D st1 (final_state (check_keys data keys None st1))"
    by (rule check_keys_grows) (auto intro: assms(4))
  have "final_state (load_data f keys st) = final_state (check_keys data keys None st1)"
    using Document j by (auto simp: load_data_def split: sum.splits)
  with g1 g2 show ?thesis by (auto intro: grows_trans)
qed

section \<open>The power-of-two test\<close>





section \<open>What the checks of problem.json record\<close>








lemma grows_Inr: "grows D st (final_state r) \<Longrightarrow> r = Inr (x, st') \<Longrightarrow> grows D st st'"
  by simp


lemmas verify_problem_defs =
  verify_problem_def empty_package_def start_def problem_with_def load_data_def
  check_keys_def error_on_duplicate_keys_def verify_problem_name_def verify_problem_title_def
  verify_statement_def verify_problem_type_def valid_problem_types_def verify_has_grader_def
  verify_has_manager_def verify_time_limit_def time_limit_ok_def verify_memory_limit_def
  memory_limit_ok_def error_def warning_def

section \<open>The time limit (C8)\<close>

text \<open>
  C8 says that \<open>verify_problem\<close> accepts every number that is at least 0.5, integer or
  fractional. The code tests \<open>isinstance(problem['time_limit'], float)\<close>, which an
  integer fails: a problem.json with the time limit \<open>2\<close> is told that the time limit
  should be a number greater or equal to 0.5.
\<close>

theorem verify_problem_integer_time_limit:
  "verify_problem (empty_package\<lparr>problem_json := Document (problem_with (JInt 2) (JInt 256))\<rparr>)
     (start ''problem.json'')
   = Inr (problem_with (JInt 2) (JInt 256),
          \<lparr>errors = [''ERROR: problem.json - time_limit should be a number greater or equal to 0.5''],
           warnings = [''WARNING: problem.json - statement does not exists''],
           namespace = ''problem.json''\<rparr>)"
  by (simp add: verify_problem_defs)

section \<open>The memory limit (C9)\<close>



lemmas verify_subtasks_defs =
  verify_subtasks_def verify_subtasks_checks_def empty_package_def start_def load_data_def
  check_keys_def error_on_duplicate_keys_def get_list_of_files_def is_ignored_def
  check_validator_key_def check_samples_def verify_subtask_def check_score_sum_def
  check_placeholder_def py_format_def format_lookup_def emit_def
  subtask_placeholder_var_def subtask_placeholder_substitute_def
  error_def warning_def dquote_def str_int_def

section \<open>A stage whose prerequisite failed to load (C2)\<close>

lemma verify_subtasks_without_problem: "verify_subtasks
     (empty_package\<lparr>subtasks_json :=
        Document (JObj [(''subtasks'', JObj []), (''global_validators'', JArr [])])\<rparr>)
     JNull (start ''subtasks.json'')
   = Inl (TypeError, start ''subtasks.json'')"
  by (simp add: verify_subtasks_defs)

text \<open>
  C2 says that \<open>verify_subtasks\<close> returns normally when \<open>verify_problem\<close> has
  returned nothing. With no problem.json and a subtasks.json that loads, the run records
  that problem.json does not exist and then stops in \<open>verify_subtasks\<close> with a
  \<open>TypeError\<close>: line 226 reads \<open>problem['type']\<close> of \<open>None\<close>, and the handler
  there takes \<open>KeyError\<close> only.
\<close>

theorem verify_raises_without_problem: "verify
     (empty_package\<lparr>subtasks_json :=
        Document (JObj [(''subtasks'', JObj []), (''global_validators'', JArr [])])\<rparr>)
     (start [])
   = Inl (TypeError,
          \<lparr>errors = [''ERROR: problem.json - file does not exists''], warnings = [],
           namespace = ''subtasks.json''\<rparr>)"
  by (simp add: verify_def verify_problem_def verify_subtasks_defs)

text \<open>The solution stage does stop after loading when there are no subtasks.\<close>

lemma verify_solutions_short_circuit:
  "verify_solutions env JNull st = load_data (solutions_json env) [] st"
  unfolding verify_solutions_def
  by (cases "load_data (solutions_json env) [] st") auto

section \<open>A verdict outside the enumeration (C6)\<close>

lemmas verify_solutions_defs =
  verify_solutions_def verify_solution_def verify_except_def verify_verdict_def
  valid_verdicts_def model_solution_verdict_def empty_package_def start_def load_data_def
  check_keys_def error_on_duplicate_keys_def get_list_of_files_def is_ignored_def
  error_def warning_def dquote_def py_str_def suffix_to_prefix

text \<open>
  C6, as the code has it. For every represented solution entry whose \<open>verdict\<close> is not
  in the enumeration, the turn of the loop records the verdict error, leaves
  \<open>model_solution\<close> as it was, and then processes the \<open>except\<close> mapping of the entry
  as it does for every other entry.
\<close>

theorem verify_solution_invalid_verdict:
  assumes "name \<in> set (solution_files vars)"
    and "py_getitem solutions name = Inr (JObj kvs)"
    and "map_of kvs ''verdict'' = Some verdict"
    and "\<not> isinstance_str verdict \<or> verdict \<notin> set (map JStr valid_verdicts)"
  shows "verify_solution env subtasks solutions (JStr name) vars st =
           and_then
             (verify_except subtasks name (JObj kvs)
                (error (name @ '' verdict should be one of '' @ join_slash valid_verdicts) st))
             (\<lambda>u st'. Inr (vars\<lparr>solution_files := removeAll name (solution_files vars)\<rparr>, st'))"
proof -
  have k: "''verdict'' \<in> set (map fst kvs)"
    using assms(3) by (metis map_of_eq_None_iff option.distinct(1) set_map)
  have ck: "check_keys (JObj kvs) [''verdict''] (Some name) st = Inr ((), st)"
    using k by (simp add: check_keys_def)
  have vv: "verify_verdict verdict name st =
      (False, error (name @ '' verdict should be one of '' @ join_slash valid_verdicts) st)"
    using assms(4) by (auto simp: verify_verdict_def)
  show ?thesis
    using assms(1,2,3) ck vv
    by (simp add: verify_solution_def Let_def)
qed

theorem verify_solution_invalid_verdict_witness:
  "''a.cpp'' \<in> set (solution_files \<lparr>model_solution = None, solution_files = [''a.cpp'']\<rparr>) \<and>
   py_getitem (JObj [(''a.cpp'', JObj [(''verdict'', JStr ''bogus'')])]) ''a.cpp''
     = Inr (JObj [(''verdict'', JStr ''bogus'')]) \<and>
   map_of [(''verdict'', JStr ''bogus'')] ''verdict'' = Some (JStr ''bogus'') \<and>
   JStr ''bogus'' \<notin> set (map JStr valid_verdicts) \<and>
   verify_solution empty_package (JObj []) (JObj [(''a.cpp'', JObj [(''verdict'', JStr ''bogus'')])])
       (JStr ''a.cpp'') \<lparr>model_solution = None, solution_files = [''a.cpp'']\<rparr>
       (start ''solutions.json'') =
     and_then
       (verify_except (JObj []) ''a.cpp'' (JObj [(''verdict'', JStr ''bogus'')])
          (error (''a.cpp'' @ '' verdict should be one of '' @ join_slash valid_verdicts)
             (start ''solutions.json'')))
       (\<lambda>u st'. Inr (\<lparr>model_solution = None, solution_files = [''a.cpp'']\<rparr>
                        \<lparr>solution_files :=
                           removeAll ''a.cpp''
                             (solution_files \<lparr>model_solution = None, solution_files = [''a.cpp'']\<rparr>)\<rparr>,
                      st'))"
proof -
  have h1: "''a.cpp'' \<in> set (solution_files \<lparr>model_solution = None, solution_files = [''a.cpp'']\<rparr>)"
    by simp
  have h2: "py_getitem (JObj [(''a.cpp'', JObj [(''verdict'', JStr ''bogus'')])]) ''a.cpp''
     = Inr (JObj [(''verdict'', JStr ''bogus'')])"
    by simp
  have h3: "map_of [(''verdict'', JStr ''bogus'')] ''verdict'' = Some (JStr ''bogus'')"
    by simp
  have h4: "JStr ''bogus'' \<notin> set (map JStr valid_verdicts)"
    by (simp add: valid_verdicts_def model_solution_verdict_def)
  show ?thesis
    by (intro conjI h1 h2 h3 h4 verify_solution_invalid_verdict[OF h1 h2 h3 disjI2[OF h4]])
qed

text \<open>
  The claim as stated fails: the entry has a verdict outside the enumeration, and its
  \<open>except\<close> mapping is still examined and reported.
\<close>

theorem verify_solutions_invalid_verdict_counterexample:
  "verify_solutions
     (empty_package\<lparr>
        solutions_json := Document (JObj [(''a.cpp'',
             JObj [(''verdict'', JStr ''bogus''),
                   (''except'', JObj [(''nosuch'', JStr ''correct'')])])]),
        solution_dir := Some [''a.cpp'']\<rparr>)
     (JObj []) (start ''solutions.json'')
   = Inr (JObj [(''a.cpp'',
             JObj [(''verdict'', JStr ''bogus''),
                   (''except'', JObj [(''nosuch'', JStr ''correct'')])])],
          \<lparr>errors =
             [''ERROR: solutions.json - a.cpp verdict should be one of ''
                @ ''model_solution/correct/time_limit/memory_limit/incorrect/runtime_error/''
                @ ''failed/time_limit_and_runtime_error/partially_correct'',
              ''ERROR: solutions.json - subtask '' @ [CHR 0x22] @ ''nosuch'' @ [CHR 0x22]
                @ '' is not defined and cannot be used in except'',
              ''ERROR: solutions.json - there is no model solution''],
           warnings = [], namespace = ''solutions.json''\<rparr>)"
  by (simp add: verify_solutions_defs)



section \<open>Subtask-sensitive validators (C7)\<close>

lemma emit_Inr [simp]: "emit s (Inr t) = Inr (s @ t)"
  by (simp add: emit_def)

lemma emit_Inl [simp]: "emit s (Inl e) = Inl e"
  by (simp add: emit_def)

lemma format_lookup_known [simp]:
  "format_lookup subtask_kwargs subtask_placeholder_var = Inr subtask_placeholder_substitute"
  by (simp add: format_lookup_def subtask_placeholder_var_def)













section \<open>What the checks of subtasks.json record\<close>

lemma check_validator_loop_grows:
  assumes "\<And>x. D (''File not found for '' @ x)" "\<And>x. D (name @ '' validator #'' @ x)"
  shows "grows D st (snd (check_validator_loop vf name parLoc i xs used st))"
proof (induction xs arbitrary: i used st)
  case Nil
  then show ?case by simp
next
  case (Cons x xs)
  have ih: "\<And>i used st0. grows D st st0 \<Longrightarrow>
       grows D st (snd (check_validator_loop vf name parLoc i xs used st0))"
    using Cons by (blast intro: grows_trans)
  have e1: "\<And>y. grows D st (error (''File not found for '' @ y) st)"
    by (rule grows_error) (rule assms(1))
  have e2: "\<And>y. grows D st (error (name @ '' validator #'' @ y) st)"
    by (rule grows_error) (rule assms(2))
  show ?case
    by (cases x) (auto simp: Let_def simp del: append.simps intro!: ih e1 e2)
qed


lemma final_state_Inr [simp]: "final_state (Inr p) = snd p"
  by (cases p) simp

lemma check_validator_key_grows:
  assumes "\<And>x. D (''File not found for '' @ x)" "\<And>x. D (name @ '' validator #'' @ x)"
    "\<And>x. D (dquote @ x)"
  shows "grows D st (final_state (check_validator_key vf parent key name parName used st))"
proof -
  have l: "\<And>parLoc xs s. grows D s (snd (check_validator_loop vf name parLoc 0 xs used s))"
    by (rule check_validator_loop_grows) (rule assms)+
  have e: "\<And>y s. grows D s (error (dquote @ y) s)"
    by (rule grows_error) (rule assms(3))
  show ?thesis
    unfolding check_validator_key_def
    by (auto simp: Let_def simp del: append.simps intro!: grows_and_then l e split: json.splits)
qed

lemma check_placeholder_grows:
  assumes "\<And>x. D (''Subtask-sensitive validator '' @ x)"
  shows "grows D st (final_state (check_placeholder v st))"
proof -
  have e: "\<And>y s. grows D s (error (''Subtask-sensitive validator '' @ y) s)"
    by (rule grows_error) (rule assms)
  show ?thesis
    unfolding check_placeholder_def
    by (auto simp del: append.simps intro!: e split: json.splits sum.splits exn.splits)
qed

lemma check_placeholders_grows:
  assumes "\<And>x. D (''Subtask-sensitive validator '' @ x)"
  shows "grows D st (final_state (check_placeholders vs st))"
proof (induction vs arbitrary: st)
  case Nil
  then show ?case by simp
next
  case (Cons v vs)
  show ?case
    unfolding check_placeholders.simps
    by (rule grows_and_then) (rule check_placeholder_grows, rule assms, rule Cons)
qed

lemma check_samples_grows:
  assumes "D ''samples is required''"
  shows "grows D st (final_state (check_samples problem subtasks st))"
proof -
  have ck: "grows D st (final_state (check_keys subtasks [''samples''] None st))"
    by (rule check_keys_grows) (use assms in auto)
  show ?thesis
    unfolding check_samples_def using ck
    by (auto split: sum.splits)
qed

lemma verify_subtask_grows:
  assumes ok: "subtasks_desc_ok D"
  shows "grows D st (final_state (verify_subtask vf name data vars st))"
proof (cases "isinstance_dict data")
  case False
  have "D (''invalid data in '' @ name)" using ok by (simp add: subtasks_desc_ok_def)
  then have "grows D st (error (''invalid data in '' @ name) st)" by (rule grows_error)
  with False show ?thesis by (simp add: verify_subtask_def)
next
  case True
  have ck: "grows D st (final_state (check_keys data [''index'', ''score''] (Some name) st))"
    by (rule check_keys_grows) (use ok in \<open>auto simp: subtasks_desc_ok_def\<close>)
  have cvk: "\<And>pn used s. grows D s
      (final_state (check_validator_key vf data ''validators'' ''subtask'' pn used s))"
    by (rule check_validator_key_grows) (use ok in \<open>auto simp: subtasks_desc_ok_def\<close>)
  have e1: "\<And>n s. grows D s (error (''score should be a non-negative integer in subtask '' @ n) s)"
    by (rule grows_error) (use ok in \<open>simp add: subtasks_desc_ok_def\<close>)
  have e2: "\<And>s. grows D s (error ''samples subtask score is non-zero'' s)"
    by (rule grows_error) (use ok in \<open>simp add: subtasks_desc_ok_def\<close>)
  have c1: "\<And>n pn used s. grows D s
      (final_state (check_validator_key vf data ''validators'' ''subtask'' pn used
         (error (''score should be a non-negative integer in subtask '' @ n) s)))"
    by (rule grows_trans[OF e1 cvk])
  have c2: "\<And>pn used s. grows D s
      (final_state (check_validator_key vf data ''validators'' ''subtask'' pn used
         (error ''samples subtask score is non-zero'' s)))"
    by (rule grows_trans[OF e2 cvk])
  show ?thesis
  proof (cases "check_keys data [''index'', ''score''] (Some name) st")
    case (Inl p)
    obtain e st1 where p: "p = (e, st1)" by (cases p)
    with Inl ck have "grows D st st1" by simp
    with True Inl p show ?thesis by (simp add: verify_subtask_def)
  next
    case (Inr p)
    obtain u st1 where p: "p = (u, st1)" by (cases p)
    with Inr ck have g: "grows D st st1" by simp
    have "grows D st1 (final_state (and_then (attempt (py_getitem data ''index'') st1) (\<lambda>index st.
             if \<not> hashable index then Inl (TypeError, st)
             else
               and_then (attempt (py_getitem data ''score'') st) (\<lambda>score st.
                 (let vars1 = vars\<lparr>indexes := indexes vars @ [index]\<rparr>;
                      scored =
                        (case py_int score of
                           None \<Rightarrow>
                             (vars1, error (''score should be a non-negative integer in subtask ''
                                            @ name) st)
                         | Some s \<Rightarrow>
                             if s < 0
                             then (vars1,
                                   error (''score should be a non-negative integer in subtask ''
                                          @ name) st)
                             else if name = ''samples''
                             then (if s \<noteq> 0
                                   then (vars1, error ''samples subtask score is non-zero'' st)
                                   else (vars1, st))
                             else (vars1\<lparr>score_sum := score_sum vars1 + s\<rparr>, st))
                  in and_then
                       (check_validator_key vf data ''validators'' ''subtask''
                          (Some name) (used_validators (fst scored)) (snd scored))
                       (\<lambda>used st. Inr ((fst scored)\<lparr>used_validators := used\<rparr>, st)))))))"
      by (auto simp: Let_def simp del: append.simps intro!: grows_and_then c1 c2 cvk
            split: option.splits)
    with g True Inr p show ?thesis
      by (simp add: verify_subtask_def) (erule (1) grows_trans)
  qed
qed

lemma verify_subtask_loop_grows:
  assumes ok: "subtasks_desc_ok D"
  shows "grows D st (final_state (verify_subtask_loop vf items vars st))"
proof (induction items arbitrary: vars st)
  case Nil
  then show ?case by simp
next
  case (Cons item items)
  obtain name data where i: "item = (name, data)" by (cases item)
  show ?case
    unfolding i verify_subtask_loop.simps
    by (rule grows_and_then) (rule verify_subtask_grows[OF ok], rule Cons)
qed

lemma warn_unused_errors [simp]:
  "errors (warn_unused fs st) = errors st" "namespace (warn_unused fs st) = namespace st"
  by (induction fs arbitrary: st) simp_all


lemma check_score_sum_simps [simp]:
  "namespace (check_score_sum s st) = namespace st"
  "errors (check_score_sum s st) =
     errors st @ (if s \<noteq> 100 then [err_msg (namespace st) (''sum of scores is '' @ str_int s)] else [])"
  by (simp_all add: check_score_sum_def)

lemma check_indexes_simps [simp]:
  "namespace (check_indexes h idxs is st) = namespace st"
  "errors (check_indexes h idxs is st) =
     errors st @ map (\<lambda>i. err_msg (namespace st) (''missing index '' @ str_nat i @ '' in subtask indexes''))
                   (filter (\<lambda>i. \<not> covered h idxs i) is)"
  by (induction "is" arbitrary: st) (simp_all add: covered_def)

lemma verify_subtasks_checks_run:
  assumes ok: "subtasks_desc_ok D"
    and run: "verify_subtasks_checks vf problem subtasks_data st = Inr (subtasks, st')"
  shows "\<exists>used hasSamples items st5 st6 vars st7.
           grows D st st5 \<and> subtasks = JObj items \<and>
           check_samples problem subtasks st5 = Inr (hasSamples, st6) \<and>
           verify_subtask_loop vf items \<lparr>indexes = [], score_sum = 0, used_validators = used\<rparr> st6
             = Inr (vars, st7) \<and>
           st' = check_indexes hasSamples (indexes vars) [0 ..< length items]
                   (check_score_sum (score_sum vars)
                      (warn_unused (filter (\<lambda>f. f \<notin> used_validators vars) vf) st7))"
proof -
  from run obtain used1 st1 used st2 sensitive entries u st3 hasSamples st6 items vars st7 where
    s: "check_validator_key vf subtasks_data ''global_validators'' ''global'' None {} st
          = Inr (used1, st1)"
       "check_validator_key vf subtasks_data ''subtask_sensitive_validators''
          ''subtask-sensitive'' None used1 st1 = Inr (used, st2)"
       "py_get subtasks_data ''subtask_sensitive_validators'' = Inr sensitive"
       "py_iter sensitive = Inr entries"
       "check_placeholders entries st2 = Inr (u, st3)"
       "py_getitem subtasks_data ''subtasks'' = Inr subtasks"
       "check_samples problem subtasks st3 = Inr (hasSamples, st6)"
       "py_items subtasks = Inr items"
       "verify_subtask_loop vf items \<lparr>indexes = [], score_sum = 0, used_validators = used\<rparr> st6
          = Inr (vars, st7)"
       "st' = check_indexes hasSamples (indexes vars) [0 ..< length items]
                   (check_score_sum (score_sum vars)
                      (warn_unused (filter (\<lambda>f. f \<notin> used_validators vars) vf) st7))"
    unfolding verify_subtasks_checks_def and_then_Inr attempt_Inr by auto
  have g1: "grows D st st1"
    by (rule grows_Inr[OF check_validator_key_grows s(1)])
       (use ok in \<open>auto simp: subtasks_desc_ok_def\<close>)
  have g2: "grows D st1 st2"
    by (rule grows_Inr[OF check_validator_key_grows s(2)])
       (use ok in \<open>auto simp: subtasks_desc_ok_def\<close>)
  have g3: "grows D st2 st3"
    by (rule grows_Inr[OF check_placeholders_grows s(5)])
       (use ok in \<open>auto simp: subtasks_desc_ok_def\<close>)
  have "grows D st st3" using g1 g2 g3 by (blast intro: grows_trans)
  moreover have "subtasks = JObj items" using s(8) by (cases subtasks) auto
  ultimately show ?thesis using s(7,9,10) by blast
qed

lemma verify_subtasks_run:
  assumes ok: "subtasks_desc_ok D"
    and run: "verify_subtasks env problem st = Inr (JObj items, st')"
  shows "\<exists>vf used hasSamples st5 st6 vars st7.
           grows D st st5 \<and>
           check_samples problem (JObj items) st5 = Inr (hasSamples, st6) \<and>
           verify_subtask_loop vf items \<lparr>indexes = [], score_sum = 0, used_validators = used\<rparr> st6
             = Inr (vars, st7) \<and>
           st' = check_indexes hasSamples (indexes vars) [0 ..< length items]
                   (check_score_sum (score_sum vars)
                      (warn_unused (filter (\<lambda>f. f \<notin> used_validators vars) vf) st7))"
proof -
  from run obtain subtasks_data st0 where
    l: "load_data (subtasks_json env) [''subtasks''] st = Inr (subtasks_data, st0)" and
    r: "(if subtasks_data = JNull then Inr (JNull, st0)
       else
         and_then (attempt (py_in ''global_validators'' subtasks_data) st0) (\<lambda>has_glob st.
         and_then (attempt (if has_glob then Inr True
                            else py_in ''subtask_sensitive_validators'' subtasks_data) st)
           (\<lambda>has_any st.
              if \<not> has_any
              then Inr (JNull,
                     error (''Neither '' @ dquote @ ''global_validators'' @ dquote @ '' nor ''
                            @ dquote @ ''subtask_sensitive_validators'' @ dquote
                            @ '' is present in '' @ dquote @ ''subtasks.json'' @ dquote @ ''.'') st)
              else
                and_then (get_list_of_files (validator_dir env) st) (\<lambda>files st.
                  verify_subtasks_checks
                    (filter (\<lambda>f. f \<notin> {''testlib.h'', ''Makefile''}) (remdups files))
                    problem subtasks_data st)))) = Inr (JObj items, st')"
    unfolding verify_subtasks_def and_then_Inr by blast
  from r obtain files where
    c: "verify_subtasks_checks
          (filter (\<lambda>f. f \<notin> {''testlib.h'', ''Makefile''}) (remdups files))
          problem subtasks_data st0 = Inr (JObj items, st')"
    by (auto simp: and_then_Inr attempt_Inr get_list_of_files_def simp del: append.simps
          split: if_splits option.splits)
  have g0: "grows D st st0"
    by (rule grows_Inr[OF load_data_grows l]) (use ok in \<open>auto simp: subtasks_desc_ok_def\<close>)
  from verify_subtasks_checks_run[OF ok c] g0 show ?thesis
    by (blast intro: grows_trans)
qed

lemma str_nat_nonempty: "str_nat n \<noteq> []"
  by (subst str_nat.simps) simp

lemma digit_inj:
  assumes "a < 10" "b < 10" "''0123456789'' ! a = ''0123456789'' ! b"
  shows "a = b"
proof -
  have "distinct ''0123456789''" by simp
  moreover have "a < length ''0123456789''" "b < length ''0123456789''" using assms by simp_all
  ultimately show ?thesis using assms(3) by (simp only: nth_eq_iff_index_eq)
qed

lemma str_nat_inj: "str_nat n = str_nat m \<Longrightarrow> n = m"
proof (induction n arbitrary: m rule: str_nat.induct)
  case (1 n)
  show ?case
  proof (cases "n < 10")
    case True
    note n = this
    show ?thesis
    proof (cases "m < 10")
      case True
      with n "1.prems" show ?thesis
        by (subst (asm) str_nat.simps, subst (asm) (2) str_nat.simps) (simp add: digit_inj)
    next
      case False
      have "str_nat m = str_nat (m div 10) @ [''0123456789'' ! (m mod 10)]"
        using False by (subst str_nat.simps) simp
      then have "2 \<le> length (str_nat m)"
        using str_nat_nonempty[of "m div 10"] by (cases "str_nat (m div 10)") simp_all
      moreover have "length (str_nat n) = 1" using n by (subst str_nat.simps) simp
      ultimately show ?thesis using "1.prems" by simp
    qed
  next
    case False
    note n = this
    have en: "str_nat n = str_nat (n div 10) @ [''0123456789'' ! (n mod 10)]"
      using n by (subst str_nat.simps) simp
    show ?thesis
    proof (cases "m < 10")
      case True
      have "2 \<le> length (str_nat n)"
        using en str_nat_nonempty[of "n div 10"] by (cases "str_nat (n div 10)") simp_all
      moreover have "length (str_nat m) = 1" using True by (subst str_nat.simps) simp
      ultimately show ?thesis using "1.prems" by simp
    next
      case False
      have em: "str_nat m = str_nat (m div 10) @ [''0123456789'' ! (m mod 10)]"
        using False by (subst str_nat.simps) simp
      from "1.prems" en em have
        a: "str_nat (n div 10) = str_nat (m div 10)" and
        b: "''0123456789'' ! (n mod 10) = ''0123456789'' ! (m mod 10)"
        by simp_all
      from "1.IH"[OF n a] have "n div 10 = m div 10" .
      moreover from b have "n mod 10 = m mod 10" by (intro digit_inj) simp_all
      ultimately show ?thesis by (metis div_mult_mod_eq)
    qed
  qed
qed

lemma verify_subtask_vars:
  assumes "verify_subtask vf name data vars st = Inr (vars', st')"
  shows "indexes vars' = indexes vars @ entry_indexes (name, data) \<and>
         score_sum vars' = score_sum vars + non_sample_score (name, data)"
proof (cases data)
  case (JObj kvs)
  show ?thesis
  proof (cases "''index'' \<in> set (map fst kvs) \<and> ''score'' \<in> set (map fst kvs)")
    case True
    then have ck: "check_keys data [''index'', ''score''] (Some name) st = Inr ((), st)"
      using JObj by (simp add: check_keys_def)
    from True obtain index score where
      v: "map_of kvs ''index'' = Some index" "map_of kvs ''score'' = Some score"
      by (metis map_of_eq_None_iff not_Some_eq set_map)
    have c: "counted_entry data" using True JObj by (simp add: counted_entry_def)
    from assms show ?thesis
      using JObj ck v c
      by (auto simp: verify_subtask_def Let_def and_then_Inr entry_indexes_def
            non_sample_score_def entry_score_def
            split: if_splits option.splits)
  next
    case False
    then have c: "\<not> counted_entry data" using JObj by (simp add: counted_entry_def)
    have "\<exists>e s. check_keys data [''index'', ''score''] (Some name) st = Inl (KeyError e, s)"
      using False JObj by (auto simp: check_keys_def)
    with assms JObj have "vars' = vars"
      by (auto simp: verify_subtask_def)
    with c show ?thesis
      by (simp add: entry_indexes_def non_sample_score_def entry_score_def)
  qed
qed (use assms in \<open>auto simp: verify_subtask_def entry_indexes_def non_sample_score_def
       entry_score_def counted_entry_def\<close>)

lemma verify_subtask_loop_vars:
  "verify_subtask_loop vf items vars st = Inr (vars', st') \<Longrightarrow>
     indexes vars' = indexes vars @ concat (map entry_indexes items) \<and>
     score_sum vars' = score_sum vars + sum_list (map non_sample_score items)"
proof (induction items arbitrary: vars st)
  case Nil
  then show ?case by simp
next
  case (Cons item items)
  obtain name data where i: "item = (name, data)" by (cases item)
  from Cons.prems obtain vars1 st1 where
    a: "verify_subtask vf name data vars st = Inr (vars1, st1)" and
    b: "verify_subtask_loop vf items vars1 st1 = Inr (vars', st')"
    unfolding i by (auto simp: and_then_Inr)
  from verify_subtask_vars[OF a] Cons.IH[OF b] show ?case
    unfolding i by simp
qed

lemma check_samples_value:
  assumes "check_samples problem (JObj items) st = Inr (h, st')"
  shows "h = samples_expected problem items \<and>
         st' = (case py_getitem problem ''type'' of
                  Inr type \<Rightarrow> if type \<noteq> JStr ''OutputOnly'' \<and> ''samples'' \<notin> set (map fst items)
                              then error ''samples is required'' st else st
                | Inl e \<Rightarrow> st)"
  using assms
  by (auto simp: check_samples_def samples_expected_def check_keys_def
        split: sum.splits if_splits)

lemma grows_errors:
  "grows D st st' \<Longrightarrow>
     \<exists>ds. errors st' = errors st @ map (err_msg (namespace st)) ds \<and> list_all D ds \<and>
          namespace st' = namespace st"
  by (auto simp: grows_def)

lemma verify_subtasks_recorded:
  assumes ok: "subtasks_desc_ok D" and dsam: "D ''samples is required''"
    and run: "verify_subtasks env problem st = Inr (JObj items, st')"
  shows "\<exists>ds. list_all D ds \<and>
           recorded st st' =
             map (err_msg (namespace st)) ds
             @ (if sum_list (map non_sample_score items) \<noteq> 100
                then [err_msg (namespace st)
                        (''sum of scores is '' @ str_int (sum_list (map non_sample_score items)))]
                else [])
             @ map (\<lambda>i. err_msg (namespace st) (''missing index '' @ str_nat i @ '' in subtask indexes''))
                 (filter (\<lambda>i. \<not> covered (samples_expected problem items)
                                     (concat (map entry_indexes items)) i)
                    [0 ..< length items]) \<and>
           (\<forall>type. py_getitem problem ''type'' = Inr type \<and> type \<noteq> JStr ''OutputOnly'' \<and>
               ''samples'' \<notin> set (map fst items) \<longrightarrow> ''samples is required'' \<in> set ds)"
proof -
  from verify_subtasks_run[OF ok run] obtain vf used h st5 st6 vars st7 where
    g5: "grows D st st5" and
    cs: "check_samples problem (JObj items) st5 = Inr (h, st6)" and
    lp: "verify_subtask_loop vf items \<lparr>indexes = [], score_sum = 0, used_validators = used\<rparr> st6
           = Inr (vars, st7)" and
    fin: "st' = check_indexes h (indexes vars) [0 ..< length items]
                   (check_score_sum (score_sum vars)
                      (warn_unused (filter (\<lambda>f. f \<notin> used_validators vars) vf) st7))"
    by blast
  from check_samples_value[OF cs] have
    h: "h = samples_expected problem items" and
    s6: "st6 = (case py_getitem problem ''type'' of
                  Inr type \<Rightarrow> if type \<noteq> JStr ''OutputOnly'' \<and> ''samples'' \<notin> set (map fst items)
                              then error ''samples is required'' st5 else st5
                | Inl e \<Rightarrow> st5)"
    by simp_all
  from verify_subtask_loop_vars[OF lp] have
    v: "indexes vars = concat (map entry_indexes items)"
       "score_sum vars = sum_list (map non_sample_score items)"
    by simp_all
  from grows_errors[OF g5] obtain ds5 where
    d5: "errors st5 = errors st @ map (err_msg (namespace st)) ds5" "list_all D ds5"
        "namespace st5 = namespace st"
    by blast
  define ds6 where "ds6 = (case py_getitem problem ''type'' of
                  Inr type \<Rightarrow> if type \<noteq> JStr ''OutputOnly'' \<and> ''samples'' \<notin> set (map fst items)
                              then [''samples is required''] else []
                | Inl e \<Rightarrow> [])"
  have d6: "errors st6 = errors st5 @ map (err_msg (namespace st)) ds6" "list_all D ds6"
        "namespace st6 = namespace st"
    using s6 d5(3) dsam by (auto simp: ds6_def split: sum.splits)
  have "grows D st6 st7"
    by (rule grows_Inr[OF verify_subtask_loop_grows[OF ok] lp])
  from grows_errors[OF this] obtain ds7 where
    d7: "errors st7 = errors st6 @ map (err_msg (namespace st)) ds7" "list_all D ds7"
        "namespace st7 = namespace st"
    using d6(3) by auto
  have e: "errors st' = errors st @ (map (err_msg (namespace st)) (ds5 @ ds6 @ ds7)
             @ (if sum_list (map non_sample_score items) \<noteq> 100
                then [err_msg (namespace st)
                        (''sum of scores is '' @ str_int (sum_list (map non_sample_score items)))]
                else [])
             @ map (\<lambda>i. err_msg (namespace st) (''missing index '' @ str_nat i @ '' in subtask indexes''))
                 (filter (\<lambda>i. \<not> covered (samples_expected problem items)
                                     (concat (map entry_indexes items)) i)
                    [0 ..< length items]))"
    unfolding fin using d5(1) d6(1) d7(1,3) v h
    by (simp del: append.simps)
  have l: "list_all D (ds5 @ ds6 @ ds7)" using d5(2) d6(2) d7(2) by simp
  have m: "\<forall>type. py_getitem problem ''type'' = Inr type \<and> type \<noteq> JStr ''OutputOnly'' \<and>
               ''samples'' \<notin> set (map fst items) \<longrightarrow> ''samples is required'' \<in> set (ds5 @ ds6 @ ds7)"
    by (auto simp: ds6_def)
  from recorded_append[OF e] l m show ?thesis by blast
qed

lemmas example_defs = problem_of_type_def subtasks_file_def subtask_entry_def

lemma subtasks_desc_ok_no_sum:
  "subtasks_desc_ok (\<lambda>d. \<not> prefix ''sum of scores is '' d)"
  by (simp add: subtasks_desc_ok_def dquote_def)

lemma subtasks_desc_ok_no_missing:
  "subtasks_desc_ok (\<lambda>d. \<not> prefix ''missing index '' d)"
  by (simp add: subtasks_desc_ok_def dquote_def)

section \<open>The samples subtask (C10)\<close>



section \<open>The sum of the scores (C3)\<close>

text \<open>
  C3, as the code has it. When \<open>verify_subtasks\<close> returns the subtasks mapping, it has
  recorded an error \<open>sum of scores is x\<close> if and only if the sum of the scores of the
  subtasks other than \<open>samples\<close> differs from 100 and \<open>x\<close> is that sum; a subtask counts
  with its score when it is a dict that has both keys \<open>index\<close> and \<open>score\<close> and its
  score is a non-negative integer, and with 0 otherwise. So for a subtasks.json whose
  entries all have an index and a non-negative integer score the sum is that of all
  scores but the one of \<open>samples\<close>, and no such error is recorded when it is 100.
\<close>

theorem verify_subtasks_score_sum:
  assumes "verify_subtasks env problem st = Inr (JObj items, st')"
  shows "err_msg (namespace st) (''sum of scores is '' @ x) \<in> set (recorded st st') \<longleftrightarrow>
           sum_list (map non_sample_score items) \<noteq> 100 \<and>
           x = str_int (sum_list (map non_sample_score items))"
proof -
  let ?D = "\<lambda>d. \<not> prefix ''sum of scores is '' d"
  have dsam: "?D ''samples is required''" by simp
  from verify_subtasks_recorded[OF subtasks_desc_ok_no_sum dsam assms] obtain ds where
    l: "list_all ?D ds" and
    r: "recorded st st' =
             map (err_msg (namespace st)) ds
             @ (if sum_list (map non_sample_score items) \<noteq> 100
                then [err_msg (namespace st)
                        (''sum of scores is '' @ str_int (sum_list (map non_sample_score items)))]
                else [])
             @ map (\<lambda>i. err_msg (namespace st) (''missing index '' @ str_nat i @ '' in subtask indexes''))
                 (filter (\<lambda>i. \<not> covered (samples_expected problem items)
                                     (concat (map entry_indexes items)) i)
                    [0 ..< length items])"
    by blast
  have a: "err_msg (namespace st) (''sum of scores is '' @ x) \<notin> set (map (err_msg (namespace st)) ds)"
  proof
    assume "err_msg (namespace st) (''sum of scores is '' @ x) \<in> set (map (err_msg (namespace st)) ds)"
    then have "''sum of scores is '' @ x \<in> set ds" by auto
    with l have "\<not> prefix ''sum of scores is '' (''sum of scores is '' @ x)"
      unfolding list_all_iff by (rule bspec)
    then show False by (simp only: prefixI[OF refl] not_True_eq_False)
  qed
  have b: "err_msg (namespace st) (''sum of scores is '' @ x) \<notin>
      set (map (\<lambda>i. err_msg (namespace st) (''missing index '' @ str_nat i @ '' in subtask indexes'')) is)"
    for "is"
    by auto
  show ?thesis unfolding r using a b by auto
qed

theorem verify_subtasks_score_sum_witness:
  "verify_subtasks (empty_package\<lparr>subtasks_json :=
        subtasks_file [(''a'', subtask_entry 1 60), (''b'', subtask_entry 2 30)]\<rparr>)
      (problem_of_type ''OutputOnly'') (start ''subtasks.json'')
    = Inr (JObj [(''a'', subtask_entry 1 60), (''b'', subtask_entry 2 30)],
           \<lparr>errors = [''ERROR: subtasks.json - sum of scores is 90''], warnings = [],
            namespace = ''subtasks.json''\<rparr>) \<and>
   (err_msg (namespace (start ''subtasks.json'')) (''sum of scores is '' @ ''90'')
      \<in> set (recorded (start ''subtasks.json'')
                \<lparr>errors = [''ERROR: subtasks.json - sum of scores is 90''], warnings = [],
                 namespace = ''subtasks.json''\<rparr>)) =
   (sum_list (map non_sample_score [(''a'', subtask_entry 1 60), (''b'', subtask_entry 2 30)]) \<noteq> 100 \<and>
    ''90'' = str_int (sum_list (map non_sample_score
                [(''a'', subtask_entry 1 60), (''b'', subtask_entry 2 30)])))"
proof -
  have run: "verify_subtasks (empty_package\<lparr>subtasks_json :=
        subtasks_file [(''a'', subtask_entry 1 60), (''b'', subtask_entry 2 30)]\<rparr>)
      (problem_of_type ''OutputOnly'') (start ''subtasks.json'')
    = Inr (JObj [(''a'', subtask_entry 1 60), (''b'', subtask_entry 2 30)],
           \<lparr>errors = [''ERROR: subtasks.json - sum of scores is 90''], warnings = [],
            namespace = ''subtasks.json''\<rparr>)"
    by (simp add: verify_subtasks_defs example_defs str_nat.simps)
  show ?thesis
    by (intro conjI run verify_subtasks_score_sum[OF run])
qed

text \<open>
  The claim as stated fails: the only subtask has the score 100, a non-negative
  integer, and no \<open>index\<close>; it is skipped before its score is added, and the error
  \<open>sum of scores is 0\<close> is recorded.
\<close>

theorem verify_subtasks_score_sum_counterexample:
  "verify_subtasks (empty_package\<lparr>subtasks_json :=
        subtasks_file [(''a'', JObj [(''score'', JInt 100)])]\<rparr>)
      (problem_of_type ''OutputOnly'') (start ''subtasks.json'')
    = Inr (JObj [(''a'', JObj [(''score'', JInt 100)])],
           \<lparr>errors = [''ERROR: subtasks.json - index is required in a'',
                      ''ERROR: subtasks.json - sum of scores is 0'',
                      ''ERROR: subtasks.json - missing index 0 in subtask indexes''],
            warnings = [], namespace = ''subtasks.json''\<rparr>)"
  by (simp add: verify_subtasks_defs example_defs str_nat.simps)

lemma count_list_map_inj:
  "(\<And>a b. f a = f b \<Longrightarrow> a = b) \<Longrightarrow> count_list (map f xs) (f i) = count_list xs i"
  by (induction xs) auto

lemma count_list_distinct:
  "distinct xs \<Longrightarrow> count_list xs i = (if i \<in> set xs then 1 else 0)"
  by (induction xs) auto

lemma count_list_zero: "x \<notin> set xs \<Longrightarrow> count_list xs x = 0"
  by (induction xs) auto

lemma missing_index_inj:
  "err_msg ns (''missing index '' @ str_nat a @ '' in subtask indexes'')
     = err_msg ns (''missing index '' @ str_nat b @ '' in subtask indexes'') \<Longrightarrow> a = b"
  by (simp add: str_nat_inj)

section \<open>The range of the indexes (C4)\<close>

text \<open>
  C4, as the code has it. When \<open>verify_subtasks\<close> returns the subtasks mapping, the
  indexes of the counted subtasks are required to cover the range of as many positions
  as there are subtasks that starts at 0 when the problem type is not \<open>OutputOnly\<close>
  and the subtasks have the key \<open>samples\<close>, and at 1 otherwise. For every position
  \<open>i\<close> of the range (counted from 0) whose index is not covered exactly one
  missing-index error is recorded, the one that names \<open>i\<close>; no missing-index error is
  recorded for a covered position or outside the range, and no other recorded error
  begins with \<open>missing index\<close>.
\<close>

theorem verify_subtasks_missing_indexes:
  assumes "verify_subtasks env problem st = Inr (JObj items, st')"
  shows "count_list (recorded st st')
           (err_msg (namespace st) (''missing index '' @ str_nat i @ '' in subtask indexes''))
         = (if i < length items \<and>
               \<not> covered (samples_expected problem items) (concat (map entry_indexes items)) i
            then 1 else 0) \<and>
         (\<exists>pre. recorded st st' =
            pre @ map (\<lambda>i. err_msg (namespace st) (''missing index '' @ str_nat i @ '' in subtask indexes''))
                    (filter (\<lambda>i. \<not> covered (samples_expected problem items)
                                        (concat (map entry_indexes items)) i)
                       [0 ..< length items]) \<and>
            list_all (\<lambda>m. \<not> prefix (err_msg (namespace st) ''missing index '') m) pre)"
proof -
  let ?D = "\<lambda>d. \<not> prefix ''missing index '' d"
  let ?f = "\<lambda>i. err_msg (namespace st) (''missing index '' @ str_nat i @ '' in subtask indexes'')"
  let ?P = "\<lambda>i. \<not> covered (samples_expected problem items) (concat (map entry_indexes items)) i"
  let ?t = "sum_list (map non_sample_score items)"
  have dsam: "?D ''samples is required''" by simp
  from verify_subtasks_recorded[OF subtasks_desc_ok_no_missing dsam assms] obtain ds where
    l: "list_all ?D ds" and
    r: "recorded st st' =
             map (err_msg (namespace st)) ds
             @ (if ?t \<noteq> 100 then [err_msg (namespace st) (''sum of scores is '' @ str_int ?t)] else [])
             @ map ?f (filter ?P [0 ..< length items])"
    by blast
  define pre where "pre = map (err_msg (namespace st)) ds
             @ (if ?t \<noteq> 100 then [err_msg (namespace st) (''sum of scores is '' @ str_int ?t)] else [])"
  have r': "recorded st st' = pre @ map ?f (filter ?P [0 ..< length items])"
    unfolding r pre_def by simp
  have p1: "\<not> prefix (err_msg (namespace st) ''missing index '') (err_msg (namespace st) d)"
    if "?D d" for d
    using that by (simp add: err_msg_def)
  have p: "list_all (\<lambda>m. \<not> prefix (err_msg (namespace st) ''missing index '') m) pre"
    using l p1 unfolding pre_def by (auto simp: list_all_iff err_msg_def)
  have "prefix (err_msg (namespace st) ''missing index '') (?f i)"
    by (simp add: err_msg_def)
  with p have "?f i \<notin> set pre" by (auto simp: list_all_iff)
  then have c0: "count_list pre (?f i) = 0" by (rule count_list_zero)
  have c1: "count_list (map ?f (filter ?P [0 ..< length items])) (?f i)
              = count_list (filter ?P [0 ..< length items]) i"
    by (rule count_list_map_inj) (rule missing_index_inj)
  have c2: "count_list (filter ?P [0 ..< length items]) i
              = (if i < length items \<and> ?P i then 1 else 0)"
    by (subst count_list_distinct) auto
  have "count_list (recorded st st') (?f i) = (if i < length items \<and> ?P i then 1 else 0)"
    unfolding r' using c0 c1 c2 by simp
  with r' p show ?thesis by blast
qed


theorem verify_subtasks_missing_indexes_witness:
  "verify_subtasks (empty_package\<lparr>subtasks_json :=
        subtasks_file [(''a'', subtask_entry 1 50), (''b'', subtask_entry 3 50)]\<rparr>)
      (problem_of_type ''OutputOnly'') (start ''subtasks.json'')
    = Inr (JObj [(''a'', subtask_entry 1 50), (''b'', subtask_entry 3 50)],
           \<lparr>errors = [''ERROR: subtasks.json - missing index 1 in subtask indexes''],
            warnings = [], namespace = ''subtasks.json''\<rparr>) \<and>
   count_list (recorded (start ''subtasks.json'')
                 \<lparr>errors = [''ERROR: subtasks.json - missing index 1 in subtask indexes''],
                  warnings = [], namespace = ''subtasks.json''\<rparr>)
      (err_msg (namespace (start ''subtasks.json''))
         (''missing index '' @ str_nat 1 @ '' in subtask indexes''))
     = (if 1 < length [(''a'', subtask_entry 1 50), (''b'', subtask_entry 3 50)] \<and>
           \<not> covered (samples_expected (problem_of_type ''OutputOnly'')
                          [(''a'', subtask_entry 1 50), (''b'', subtask_entry 3 50)])
                 (concat (map entry_indexes [(''a'', subtask_entry 1 50), (''b'', subtask_entry 3 50)])) 1
        then 1 else 0)"
proof -
  have run: "verify_subtasks (empty_package\<lparr>subtasks_json :=
        subtasks_file [(''a'', subtask_entry 1 50), (''b'', subtask_entry 3 50)]\<rparr>)
      (problem_of_type ''OutputOnly'') (start ''subtasks.json'')
    = Inr (JObj [(''a'', subtask_entry 1 50), (''b'', subtask_entry 3 50)],
           \<lparr>errors = [''ERROR: subtasks.json - missing index 1 in subtask indexes''],
            warnings = [], namespace = ''subtasks.json''\<rparr>)"
    by (simp add: verify_subtasks_defs example_defs str_nat.simps)
  from verify_subtasks_missing_indexes[OF run, of 1] run show ?thesis by blast
qed

text \<open>
  The claim as stated fails: without a \<open>samples\<close> subtask the range starts at 1, not at
  0. One subtask with the index 0 covers the range of the claim, and the code records a
  missing-index error.
\<close>

theorem verify_subtasks_missing_indexes_counterexample:
  "verify_subtasks (empty_package\<lparr>subtasks_json :=
        subtasks_file [(''a'', subtask_entry 0 100)]\<rparr>)
      (problem_of_type ''OutputOnly'') (start ''subtasks.json'')
    = Inr (JObj [(''a'', subtask_entry 0 100)],
           \<lparr>errors = [''ERROR: subtasks.json - missing index 0 in subtask indexes''],
            warnings = [], namespace = ''subtasks.json''\<rparr>)"
  by (simp add: verify_subtasks_defs example_defs str_nat.simps)

section \<open>What the checks of solutions.json record\<close>

lemma append_eq_suffix: "x @ s = t \<longleftrightarrow> suffix s t \<and> x = take (length t - length s) t"
  by (auto simp: suffix_def)

lemma solutions_desc_ok_model:
  "solutions_desc_ok (\<lambda>d. d \<noteq> ''there is no model solution'' \<and>
                          d \<noteq> ''there is more than one model solutions'')"
  unfolding solutions_desc_ok_def
  by (simp add: valid_verdicts_def model_solution_verdict_def append_eq_suffix suffix_to_prefix)

lemma verify_verdict_grows:
  assumes "\<And>x. D (x @ '' verdict should be one of '' @ join_slash valid_verdicts)"
  shows "grows D st (snd (verify_verdict verdict key_name st))"
  unfolding verify_verdict_def
  by (auto simp del: append.simps intro!: grows_error assms)

lemma verify_exceptions_grows:
  assumes "\<And>x. D (x @ '' verdict should be one of '' @ join_slash valid_verdicts)"
    "\<And>x. D (''subtask '' @ x)"
  shows "grows D st (final_state (verify_exceptions subtasks solution kvs exceptions st))"
proof (induction kvs arbitrary: st)
  case Nil
  then show ?case by simp
next
  case (Cons kv kvs)
  obtain k v where kv: "kv = (k, v)" by (cases kv)
  have e: "\<And>y s. grows D s (error (''subtask '' @ y) s)"
    by (rule grows_error) (rule assms(2))
  have vv: "\<And>verdict key s. grows D s (snd (verify_verdict verdict key s))"
    by (rule verify_verdict_grows) (rule assms(1))
  have t1: "\<And>y s. grows D s (final_state (verify_exceptions subtasks solution kvs exceptions
                                   (error (''subtask '' @ y) s)))"
    by (rule grows_trans[OF e Cons])
  have t2: "\<And>verdict key s. grows D s (final_state (verify_exceptions subtasks solution kvs exceptions
                                   (snd (verify_verdict verdict key s))))"
    by (rule grows_trans[OF vv Cons])
  show ?case
    unfolding kv verify_exceptions.simps
    by (auto simp del: append.simps intro!: grows_and_then t1 t2)
qed

lemma verify_except_grows:
  assumes "\<And>x. D (x @ '' verdict should be one of '' @ join_slash valid_verdicts)"
    "\<And>x. D (''subtask '' @ x)" "\<And>x. D (''invalid except format in '' @ x)"
  shows "grows D st (final_state (verify_except subtasks solution data st))"
proof -
  have x: "\<And>kvs ex s. grows D s (final_state (verify_exceptions subtasks solution kvs ex s))"
    by (rule verify_exceptions_grows) (rule assms)+
  have e: "\<And>y s. grows D s (error (''invalid except format in '' @ y) s)"
    by (rule grows_error) (rule assms(3))
  show ?thesis
    unfolding verify_except_def
    by (auto simp del: append.simps intro!: grows_and_then x e split: json.splits)
qed

lemma report_unrepresented_grows:
  assumes "\<And>x. D (x @ '' is not represented'')"
  shows "grows D st (report_unrepresented fs st)"
proof (induction fs arbitrary: st)
  case Nil
  then show ?case by simp
next
  case (Cons f fs)
  have "grows D st (error (f @ '' is not represented'') st)"
    by (rule grows_error) (rule assms)
  then show ?case
    unfolding report_unrepresented.simps by (rule grows_trans) (rule Cons)
qed

lemma grows_weaken: "grows D st st' \<Longrightarrow> grows (\<lambda>d. True) st st'"
  by (erule grows_mono) simp

lemma added_self [simp]: "added t st st = 0"
  by (simp add: added_def)

lemma added_trans:
  assumes "grows D st st1" "grows E st1 st2"
  shows "added t st st2 = added t st st1 + added t st1 st2"
proof -
  from assms(1) obtain a where a: "errors st1 = errors st @ a" "namespace st1 = namespace st"
    by (auto simp: grows_def)
  from assms(2) obtain b where b: "errors st2 = errors st1 @ b"
    by (auto simp: grows_def)
  have "recorded st st1 = a" "recorded st1 st2 = b" "recorded st st2 = a @ b"
    using a b by (simp_all add: recorded_def)
  then show ?thesis using a(2) by (simp add: added_def)
qed

lemma added_grows:
  assumes "grows D st st'" "\<not> D t"
  shows "added t st st' = 0"
proof -
  from grows_recorded[OF assms(1)] have
    "\<forall>m \<in> set (recorded st st'). \<exists>d. D d \<and> m = err_msg (namespace st) d" by simp
  with assms(2) have "err_msg (namespace st) t \<notin> set (recorded st st')" by auto
  then show ?thesis unfolding added_def by (induction "recorded st st'") auto
qed

lemma added_error:
  "added t st (error d st) = (if d = t then 1 else 0)"
  by (simp add: added_def recorded_def)

end
